theory Spec2Isabelle
  imports Complex_Main "HOL-Library.Sublist" "HOL-Library.Word"
begin

section \<open>Python string operations used by the orchestrator\<close>

text \<open>
  A Python \<open>str\<close> is modelled as a \<open>string\<close>, read as the list of its code points;
  HOL characters are 8 bit wide, so the texts covered are those over U+0000..U+00FF.
  \<open>len\<close> is \<open>length\<close> and a slice \<open>s[:n]\<close> is \<open>take n s\<close>.
\<close>

definition py_isspace :: "char \<Rightarrow> bool" where
  "py_isspace c =
     (let n = (of_char c :: nat)
      in (9 \<le> n \<and> n \<le> 13) \<or> (28 \<le> n \<and> n \<le> 32) \<or> n = 133 \<or> n = 160)"

definition py_strip :: "string \<Rightarrow> string" where
  "py_strip s = rev (dropWhile py_isspace (rev (dropWhile py_isspace s)))"

definition lower_char :: "char \<Rightarrow> char" where
  "lower_char c =
     (let n = (of_char c :: nat)
      in if (65 \<le> n \<and> n \<le> 90) \<or> (192 \<le> n \<and> n \<le> 222 \<and> n \<noteq> 215)
         then char_of (n + 32) else c)"

definition py_lower :: "string \<Rightarrow> string" where
  "py_lower s = map lower_char s"

text \<open>\<open>upper\<close> is only ever applied to the ASCII role names.\<close>

definition upper_char :: "char \<Rightarrow> char" where
  "upper_char c =
     (let n = (of_char c :: nat)
      in if 97 \<le> n \<and> n \<le> 122 then char_of (n - 32) else c)"

definition py_upper :: "string \<Rightarrow> string" where
  "py_upper s = map upper_char s"

text \<open>\<open>s.split(sep)\<close> for a one-character separator.\<close>

fun py_split :: "char \<Rightarrow> string \<Rightarrow> string list" where
  "py_split sep [] = [[]]"
| "py_split sep (c # cs) =
     (if c = sep then [] # py_split sep cs
      else (case py_split sep cs of
              [] \<Rightarrow> [[c]]
            | w # ws \<Rightarrow> (c # w) # ws))"

text \<open>\<open>s.split("\n", 1)[-1]\<close>: what follows the first newline, or all of \<open>s\<close>.\<close>

definition after_first_newline :: "string \<Rightarrow> string" where
  "after_first_newline s =
     (if CHR 0x0A \<in> set s then tl (dropWhile (\<lambda>c. c \<noteq> CHR 0x0A) s) else s)"

text \<open>\<open>s.rsplit(" ", 1)[0]\<close>: what precedes the last blank, or all of \<open>s\<close>.\<close>

definition before_last_space :: "string \<Rightarrow> string" where
  "before_last_space s =
     (if CHR '' '' \<in> set s then rev (tl (dropWhile (\<lambda>c. c \<noteq> CHR '' '') (rev s))) else s)"

fun py_join :: "string \<Rightarrow> string list \<Rightarrow> string" where
  "py_join sep [] = []"
| "py_join sep [x] = x"
| "py_join sep (x # y # ys) = x @ sep @ py_join sep (y # ys)"

text \<open>\<open>needle in hay\<close> on strings.\<close>

fun py_in :: "string \<Rightarrow> string \<Rightarrow> bool" where
  "py_in needle [] = (needle = [])"
| "py_in needle (c # cs) = (prefix needle (c # cs) \<or> py_in needle cs)"

text \<open>\<open>str(n)\<close> for a natural number, as the f-strings print round and document numbers.\<close>

definition digit_char :: "nat \<Rightarrow> char" where
  "digit_char d = char_of (48 + d)"

fun str_nat :: "nat \<Rightarrow> string" where
  "str_nat n = (if n < 10 then [digit_char n] else str_nat (n div 10) @ [digit_char (n mod 10)])"

declare str_nat.simps [simp del]

text \<open>The first line of \<open>s.splitlines()\<close>; the caller handles the empty string.\<close>

definition is_linebreak :: "char \<Rightarrow> bool" where
  "is_linebreak c =
     (let n = (of_char c :: nat)
      in (10 \<le> n \<and> n \<le> 13) \<or> (28 \<le> n \<and> n \<le> 30) \<or> n = 133)"

definition first_line :: "string \<Rightarrow> string" where
  "first_line s = takeWhile (\<lambda>c. \<not> is_linebreak c) s"

text \<open>Python truthiness of a string and \<open>a or b\<close> on strings.\<close>

definition str_or :: "string \<Rightarrow> string \<Rightarrow> string" where
  "str_or a b = (if a \<noteq> [] then a else b)"

section \<open>Data model (schemas/models.py)\<close>

record message =
  role :: string
  content :: string
  citations :: "string list"
  confidence :: real

record turn =
  index :: nat
  messages :: "message list"

record trace =
  run_id :: string
  topic :: string
  created_at :: nat
  status :: string
  turns :: "turn list"

record insight_report =
  report_run_id :: string
  report_topic :: string
  summary :: string
  hypotheses :: "string list"
  report_confidence :: real
  report_citations :: "string list"

datatype error = ProviderError | RuntimeError | ValidationError | IndexError

section \<open>Retrieval and knowledge base (retrieval/bm25.py, the Extractor's inputs)\<close>

text \<open>
  A chunk's metadata dictionary is read only through \<open>get('source', '?')\<close> and
  \<open>get('chunk_id', '?')\<close>; \<open>None\<close> is the absent key.
\<close>

record doc_chunk =
  page_content :: string
  meta_source :: "string option"
  meta_chunk_id :: "string option"

text \<open>
  One entry of the knowledge base file: \<open>None\<close> is an absent key (or JSON null), the
  values are strings and lists of strings as the ingestion job writes them.
\<close>

record kb_entry =
  kb_source :: "string option"
  kb_title :: "string option"
  kb_summary :: "string option"
  kb_key_concepts :: "string list option"
  kb_main_findings :: "string list option"
  kb_methodologies :: "string list option"

section \<open>The platform: environment, libraries and the external provider\<close>

text \<open>
  Everything the code reads from outside the repository is a field of the platform:
  the process environment, the provider client with its own state \<open>'s\<close> (a call may
  fail and may change that state), SHA-256 over the UTF-8 encoding, \<open>repr\<close> of a
  float, \<open>int\<close> of a string (\<open>None\<close> for \<open>ValueError\<close>), the PDF loader, the
  knowledge base file (\<open>None\<close> when missing or unreadable), the BM25 scores of
  \<open>rank_bm25\<close> and \<open>re.findall(r"\w+", _)\<close>. Floats are read as real numbers.
\<close>

type_synonym response = "string \<times> string list \<times> real"

record 's platform =
  getenv :: "string \<Rightarrow> string option"
  llm_generate :: "string \<Rightarrow> string \<Rightarrow> 's \<Rightarrow> (error + response) \<times> 's"
  sha256_utf8 :: "string \<Rightarrow> 256 word"
  float_repr :: "real \<Rightarrow> string"
  int_of_str :: "string \<Rightarrow> int option"
  bm25_available :: bool
  load_and_chunk_pdfs :: "string \<Rightarrow> doc_chunk list"
  load_kb_json :: "string \<Rightarrow> kb_entry list option"
  bm25_get_scores :: "doc_chunk list \<Rightarrow> string list \<Rightarrow> real list"
  re_findall_words :: "string \<Rightarrow> string list"

definition getenv_default :: "'s platform \<Rightarrow> string \<Rightarrow> string \<Rightarrow> string" where
  "getenv_default pf name dflt = (case getenv pf name of None \<Rightarrow> dflt | Some v \<Rightarrow> v)"

definition env_truthy :: "'s platform \<Rightarrow> string \<Rightarrow> bool" where
  "env_truthy pf name = (case getenv pf name of None \<Rightarrow> False | Some v \<Rightarrow> v \<noteq> [])"

text \<open>Computations that may raise and that thread the provider's state.\<close>

type_synonym ('a, 's) comp = "'s \<Rightarrow> (error + 'a) \<times> 's"

definition returnC :: "'a \<Rightarrow> ('a, 's) comp" where
  "returnC x = (\<lambda>s. (Inr x, s))"

definition raiseC :: "error \<Rightarrow> ('a, 's) comp" where
  "raiseC e = (\<lambda>s. (Inl e, s))"

definition bindC :: "('a, 's) comp \<Rightarrow> ('a \<Rightarrow> ('b, 's) comp) \<Rightarrow> ('b, 's) comp" where
  "bindC m f = (\<lambda>s. case m s of (Inl e, s') \<Rightarrow> (Inl e, s') | (Inr x, s') \<Rightarrow> f x s')"

section \<open>Agents (agents/base_agent.py, agents/roles)\<close>

abbreviation nl :: string where
  "nl \<equiv> [CHR 0x0A]"

abbreviation apos :: string where
  "apos \<equiv> [CHR 0x27]"

subsection \<open>The offline placeholder of \<open>_call_grok_api\<close>\<close>

text \<open>\<open>round(x, 3)\<close>, to the nearest multiple of 0.001, ties to the even one.\<close>

definition py_round3 :: "real \<Rightarrow> real" where
  "py_round3 x =
     (let y = x * 1000; f = \<lfloor>y\<rfloor>; d = y - of_int f
      in of_int (if d < 1 / 2 then f
                 else if 1 / 2 < d then f + 1
                 else if even f then f else f + 1) / 1000)"

definition hex_char :: "nat \<Rightarrow> char" where
  "hex_char d = (if d < 10 then char_of (48 + d) else char_of (87 + d))"

text \<open>Eight lower-case hexadecimal digits of a number below \<open>2 ^ 32\<close>.\<close>

definition hex8 :: "nat \<Rightarrow> string" where
  "hex8 n = map (\<lambda>i. hex_char ((n div 16 ^ i) mod 16)) [7, 6, 5, 4, 3, 2, 1, 0]"

text \<open>
  \<open>h[:8]\<close> of the hexadecimal digest is the top 32 bits of the digest and \<open>h[8:16]\<close>
  the next 32 bits.
\<close>

definition digest_hi :: "256 word \<Rightarrow> nat" where
  "digest_hi h = unat (drop_bit 224 h)"

definition digest_next :: "256 word \<Rightarrow> nat" where
  "digest_next h = unat (drop_bit 192 h) mod 2 ^ 32"

definition mock_confidence :: "256 word \<Rightarrow> real" where
  "mock_confidence h = py_round3 (0.55 + 0.4 * (real (digest_hi h) / 4294967295))"

definition mock_content :: "string \<Rightarrow> string \<Rightarrow> string \<Rightarrow> string" where
  "mock_content role_name instructions prompt =
     ''['' @ py_upper role_name @ ''] '' @ py_strip (first_line instructions) @ nl
     @ ''Prompt: '' @ prompt @ nl
     @ ''Response: Based on the provided context, here are the key points and next steps.''"

definition mock_response :: "'s platform \<Rightarrow> string \<Rightarrow> string \<Rightarrow> string \<Rightarrow> error + response" where
  "mock_response pf role_name instructions prompt =
     (let h = sha256_utf8 pf (instructions @ nl @ prompt)
      in if instructions = [] then Inl IndexError
         else Inr (mock_content role_name instructions prompt,
                   [''mock://ref/'' @ hex8 (digest_hi h), ''mock://ref/'' @ hex8 (digest_next h)],
                   mock_confidence h))"

definition require_provider :: "'s platform \<Rightarrow> bool" where
  "require_provider pf = (py_lower (getenv_default pf ''REQUIRE_PROVIDER'' ''false'') = ''true'')"

definition provider_env_set :: "'s platform \<Rightarrow> bool" where
  "provider_env_set pf =
     (env_truthy pf ''GEMINI_API_KEY'' \<or> env_truthy pf ''GROQ_API_KEY''
      \<or> env_truthy pf ''GROK_API_KEY'' \<or> env_truthy pf ''LLM_PROVIDER'')"

definition call_grok_api :: "'s platform \<Rightarrow> string \<Rightarrow> string \<Rightarrow> string \<Rightarrow> (response, 's) comp" where
  "call_grok_api pf role_name prompt instructions =
     (\<lambda>s. if provider_env_set pf then
            (case llm_generate pf instructions prompt s of
               (Inr r, s') \<Rightarrow> (Inr r, s')
             | (Inl e, s') \<Rightarrow>
                 if require_provider pf then (Inl e, s')
                 else (mock_response pf role_name instructions prompt, s'))
          else if require_provider pf then (Inl RuntimeError, s)
          else (mock_response pf role_name instructions prompt, s))"

text \<open>
  \<open>Message(...)\<close> validates \<open>confidence\<close> against \<open>ge=0.0, le=1.0\<close> and raises
  otherwise.
\<close>

definition new_message :: "string \<Rightarrow> response \<Rightarrow> error + message" where
  "new_message role_name r =
     (case r of (c, cits, conf) \<Rightarrow>
        if 0 \<le> conf \<and> conf \<le> 1
        then Inr \<lparr>role = role_name, content = c, citations = cits, confidence = conf\<rparr>
        else Inl ValidationError)"

definition base_send :: "'s platform \<Rightarrow> string \<Rightarrow> string \<Rightarrow> string \<Rightarrow> (message, 's) comp" where
  "base_send pf role_name instructions prompt =
     bindC (call_grok_api pf role_name prompt instructions)
       (\<lambda>r. case new_message role_name r of Inl e \<Rightarrow> raiseC e | Inr m \<Rightarrow> returnC m)"

subsection \<open>BM25 retrieval (retrieval/bm25.py)\<close>

definition simple_tokenize :: "'s platform \<Rightarrow> string \<Rightarrow> string list" where
  "simple_tokenize pf text = filter (\<lambda>t. 1 < length t) (re_findall_words pf (py_lower text))"

text \<open>
  \<open>sorted(enumerate(scores), key=..., reverse=True)\<close> is stable, as \<open>sort_key\<close> is; the
  library returns one score for each chunk (a longer list is cut to the chunks).
\<close>

definition get_relevant_documents :: "'s platform \<Rightarrow> doc_chunk list \<Rightarrow> string \<Rightarrow> nat \<Rightarrow> doc_chunk list" where
  "get_relevant_documents pf chunks query k =
     (let q_tokens = simple_tokenize pf query
      in if q_tokens = [] then []
         else
           let scores = take (length chunks) (bm25_get_scores pf chunks q_tokens);
               idx_scores = sort_key (\<lambda>p. - snd p) (zip [0 ..< length scores] scores);
               top = map fst (filter (\<lambda>p. 0 < snd p) (take k idx_scores));
               top' = (if top = [] \<and> idx_scores \<noteq> [] then map fst (take k idx_scores) else top)
           in map (\<lambda>i. chunks ! i) top')"

subsection \<open>The Extractor (agents/roles/reader.py)\<close>

record reader_agent =
  retriever :: "doc_chunk list option"
  bm25_k :: nat
  knowledge_base :: "kb_entry list"

definition opt_truthy :: "'a list option \<Rightarrow> bool" where
  "opt_truthy v = (case v of None \<Rightarrow> False | Some x \<Rightarrow> x \<noteq> [])"

definition format_entry :: "nat \<Rightarrow> kb_entry \<Rightarrow> string" where
  "format_entry i d =
     py_join nl
       ([''Document '' @ str_nat i @ '': ''
           @ (case kb_source d of None \<Rightarrow> ''Unknown'' | Some s \<Rightarrow> s)]
        @ (if opt_truthy (kb_title d) then [''  Title: '' @ the (kb_title d)] else [])
        @ (if opt_truthy (kb_summary d)
           then [''  Summary: ''
                   @ (let s = the (kb_summary d)
                      in if 300 < length s then take 300 s @ ''...'' else s)]
           else [])
        @ (if opt_truthy (kb_key_concepts d)
           then [''  Key Concepts: '' @ py_join '', '' (take 5 (the (kb_key_concepts d)))]
           else [])
        @ (if opt_truthy (kb_main_findings d)
           then ''  Main Findings:''
                # map (\<lambda>f. ''    - '' @ (if length f < 150 then f else take 150 f @ ''...''))
                      (take 3 (the (kb_main_findings d)))
           else [])
        @ (if opt_truthy (kb_methodologies d)
           then [''  Methodologies: '' @ py_join '', '' (take 3 (the (kb_methodologies d)))]
           else []))"

definition format_knowledge_base :: "reader_agent \<Rightarrow> string" where
  "format_knowledge_base rd =
     (if knowledge_base rd = [] then []
      else let docs = take 3 (knowledge_base rd)
           in py_join (nl @ nl) (map (\<lambda>(i, d). format_entry i d) (zip [1 ..< Suc (length docs)] docs)))"

definition format_snippet :: "doc_chunk \<Rightarrow> string" where
  "format_snippet d =
     (let snippet = py_strip (page_content d);
          snippet' = (if 400 < length snippet
                      then before_last_space (take 400 snippet) @ '' ...'' else snippet)
      in ''[SOURCE: '' @ (case meta_source d of None \<Rightarrow> ''?'' | Some s \<Rightarrow> s)
         @ '' | CHUNK: '' @ (case meta_chunk_id d of None \<Rightarrow> ''?'' | Some c \<Rightarrow> c)
         @ '']'' @ nl @ snippet')"

definition context_parts :: "'s platform \<Rightarrow> reader_agent \<Rightarrow> string \<Rightarrow> string list" where
  "context_parts pf rd prompt =
     (if knowledge_base rd \<noteq> [] \<and> format_knowledge_base rd \<noteq> []
      then [''--- Extracted Knowledge Base ---'' @ nl @ format_knowledge_base rd] else [])
     @ (case retriever rd of
          None \<Rightarrow> []
        | Some chunks \<Rightarrow>
            (let docs = get_relevant_documents pf chunks prompt (bm25_k rd)
             in if docs \<noteq> []
                then [''--- Retrieved Document Chunks ---'' @ nl
                        @ py_join (nl @ nl) (map format_snippet docs)]
                else []))"

definition reader_prompt :: "'s platform \<Rightarrow> reader_agent \<Rightarrow> string \<Rightarrow> string" where
  "reader_prompt pf rd prompt =
     (let parts = context_parts pf rd prompt
      in if parts \<noteq> []
         then prompt @ nl @ nl @ py_join (nl @ nl) parts @ nl @ replicate 50 (CHR ''-'') @ nl
         else prompt)"

subsection \<open>The five roles and \<open>send\<close>\<close>

datatype agent = ReaderAgent reader_agent | CriticAgent | SynthesizerAgent | VerifierAgent | FollowUpAgent

fun role_name :: "agent \<Rightarrow> string" where
  "role_name (ReaderAgent rd) = ''reader''"
| "role_name CriticAgent = ''critic''"
| "role_name SynthesizerAgent = ''synthesizer''"
| "role_name VerifierAgent = ''verifier''"
| "role_name FollowUpAgent = ''followup''"

fun role_prompt :: "agent \<Rightarrow> string" where
  "role_prompt (ReaderAgent rd) =
     ''Identify core methods, datasets, and principal findings.''
     @ '' Provide concise bullet points; avoid speculation.''
     @ '' When available, reference the extracted knowledge base and retrieved documents.''"
| "role_prompt CriticAgent =
     ''Challenge claims by identifying contradictions and unsupported points.''
     @ '' List missing evidence and questions for clarification.''"
| "role_prompt SynthesizerAgent =
     ''Integrate findings and critiques into coherent hypotheses.''
     @ '' Provide rationale and map citations to each hypothesis.''"
| "role_prompt VerifierAgent =
     ''Re-verify claims using available context; flag weak points.''
     @ '' Estimate consensus confidence; propose next step if needed.''"
| "role_prompt FollowUpAgent =
     ''Identify knowledge gaps, propose follow-up research questions, suggest methodologies, ''
     @ ''and highlight connections among findings. Be specific and actionable.''"

definition followup_full :: "string \<Rightarrow> string" where
  "followup_full prompt =
     role_prompt FollowUpAgent @ nl @ nl
     @ ''=== PRIOR ANALYSIS ==='' @ nl @ prompt @ nl @ nl
     @ ''=== TASK ==='' @ nl
     @ ''Produce gaps, questions, directions, connections in the specified format.''"

text \<open>The prompt an agent hands to \<open>BaseAgent.send\<close>.\<close>

fun agent_prompt :: "'s platform \<Rightarrow> agent \<Rightarrow> string \<Rightarrow> string" where
  "agent_prompt pf (ReaderAgent rd) prompt = reader_prompt pf rd prompt"
| "agent_prompt pf FollowUpAgent prompt = followup_full prompt"
| "agent_prompt pf ag prompt = prompt"

definition send :: "'s platform \<Rightarrow> agent \<Rightarrow> string \<Rightarrow> (message, 's) comp" where
  "send pf ag prompt = base_send pf (role_name ag) (role_prompt ag) (agent_prompt pf ag prompt)"

section \<open>The orchestrator (orchestrator/graph.py)\<close>

subsection \<open>Debate sub-dialogue: \<open>Orchestrator._debate\<close>\<close>

definition b_q_prompt :: "string \<Rightarrow> string \<Rightarrow> string \<Rightarrow> string" where
  "b_q_prompt a_role b_role context =
     ''As the '' @ py_upper b_role @ '', before proceeding, read the following ''
     @ py_upper a_role @ apos @ ''s output ''
     @ ''and ask up to 3 clarifying questions you need to form a coherent understanding.''
     @ nl @ nl
     @ ''=== '' @ py_upper a_role @ '' OUTPUT ==='' @ nl @ context @ nl @ nl
     @ ''Return ONLY a numbered list of questions.''"

definition a_ans_prompt :: "string \<Rightarrow> string \<Rightarrow> nat \<Rightarrow> string \<Rightarrow> string" where
  "a_ans_prompt a_role b_role r questions =
     ''As the '' @ py_upper a_role @ '', answer the following questions clearly and concisely, ''
     @ ''filling any missing details from your analysis. If a question is outside your scope, say so.''
     @ nl @ nl
     @ ''=== QUESTIONS FROM '' @ py_upper b_role @ '' (Round '' @ str_nat r @ '') ==='' @ nl
     @ questions @ nl @ nl
     @ ''Provide numbered answers.''"

definition b_sum_prompt :: "string \<Rightarrow> string \<Rightarrow> nat \<Rightarrow> string \<Rightarrow> string \<Rightarrow> string" where
  "b_sum_prompt a_role b_role r context answers =
     ''As the '' @ py_upper b_role @ '', produce a concise coherent summary of your understanding ''
     @ ''incorporating the answers. End the message with either [DONE] if you have enough to proceed, ''
     @ ''or [MORE] if you still need clarification.''
     @ nl @ nl @ ''=== '' @ py_upper a_role @ '' ORIGINAL OUTPUT ==='' @ nl @ context @ nl @ nl
     @ ''=== '' @ py_upper a_role @ '' ANSWERS (Round '' @ str_nat r @ '') ==='' @ nl @ answers @ nl"

definition debate_header :: "string \<Rightarrow> string \<Rightarrow> string \<Rightarrow> string \<Rightarrow> nat \<Rightarrow> string" where
  "debate_header a_role b_role speaker act r =
     ''[DEBATE '' @ a_role @ ''->'' @ b_role @ '' | '' @ py_upper speaker @ '' '' @ act
     @ '' | Round '' @ str_nat r @ '']'' @ nl"

definition tagged :: "string \<Rightarrow> message \<Rightarrow> message" where
  "tagged header m = m\<lparr>content := header @ content m\<rparr>"

text \<open>The readiness check at the end of a round.\<close>

definition signals_done :: "message \<Rightarrow> bool" where
  "signals_done m = py_in ''[done]'' (py_lower (content m))"

text \<open>
  The loop \<open>for r in range(1, max_rounds + 1)\<close>: the first numeric argument counts the
  rounds still allowed, the second is \<open>r\<close>, the pair is
  \<open>(latest_summary, debate_messages)\<close>.
\<close>

fun debate_loop ::
  "'s platform \<Rightarrow> agent \<Rightarrow> agent \<Rightarrow> string \<Rightarrow> string \<Rightarrow> string \<Rightarrow> nat \<Rightarrow> nat
     \<Rightarrow> string \<times> message list \<Rightarrow> (string \<times> message list, 's) comp" where
  "debate_loop pf agent_a agent_b context a_role b_role 0 r acc = returnC acc"
| "debate_loop pf agent_a agent_b context a_role b_role (Suc k) r acc =
     bindC (send pf agent_b (b_q_prompt a_role b_role context)) (\<lambda>b_q0.
       let b_q_msg = tagged (debate_header a_role b_role b_role ''asks'' r) b_q0 in
       bindC (send pf agent_a (a_ans_prompt a_role b_role r (content b_q_msg))) (\<lambda>a_ans0.
         let a_ans_msg = tagged (debate_header a_role b_role a_role ''answers'' r) a_ans0 in
         bindC (send pf agent_b (b_sum_prompt a_role b_role r context (content a_ans_msg))) (\<lambda>b_sum0.
           let b_sum_msg = tagged (debate_header a_role b_role b_role ''synthesis'' r) b_sum0;
               acc' = (content b_sum_msg, snd acc @ [b_q_msg, a_ans_msg, b_sum_msg])
           in if signals_done b_sum_msg then returnC acc'
              else debate_loop pf agent_a agent_b context a_role b_role k (Suc r) acc')))"

definition debate ::
  "'s platform \<Rightarrow> agent \<Rightarrow> agent \<Rightarrow> string \<Rightarrow> string \<Rightarrow> string \<Rightarrow> nat
     \<Rightarrow> (string \<times> message list, 's) comp" where
  "debate pf agent_a agent_b context a_role b_role max_rounds =
     bindC (debate_loop pf agent_a agent_b context a_role b_role max_rounds 1 ([], []))
       (\<lambda>(latest_summary, debate_messages).
          returnC (if latest_summary \<noteq> [] then after_first_newline latest_summary else context,
                   debate_messages))"

subsection \<open>One turn of the pipeline: the body of the loop in \<open>Orchestrator.run\<close>\<close>

text \<open>
  The block \<open>if debate_enabled: handoff, debate_msgs = self._debate(...)\<close>, which the
  source repeats at each of the four boundaries: the text handed to the next stage and
  the messages to record.
\<close>

definition optional_debate ::
  "'s platform \<Rightarrow> bool \<Rightarrow> nat \<Rightarrow> agent \<Rightarrow> agent \<Rightarrow> message
     \<Rightarrow> (string \<times> message list, 's) comp" where
  "optional_debate pf debate_enabled debate_rounds agent_a agent_b msg =
     (if debate_enabled then
        bindC (debate pf agent_a agent_b (content msg) (role_name agent_a) (role_name agent_b)
                 debate_rounds)
          (\<lambda>(handoff, debate_msgs). returnC (str_or handoff (content msg), debate_msgs))
      else returnC (content msg, []))"

definition critic_input :: "string \<Rightarrow> string" where
  "critic_input critic_handoff_text =
     ''The Reader has provided the following analysis (after debate handoff):'' @ nl @ nl
     @ critic_handoff_text @ nl @ nl
     @ ''Critically evaluate the Reader'' @ apos @ ''s findings. Identify gaps, unsupported claims, ''
     @ ''and potential biases. Reference specific points from the Reader'' @ apos @ ''s analysis.''"

definition synth_input :: "string \<Rightarrow> string \<Rightarrow> string" where
  "synth_input reader_content critic_to_synth_text =
     ''--- Reader'' @ apos @ ''s Analysis ---'' @ nl @ reader_content @ nl @ nl
     @ ''--- Critic'' @ apos @ ''s Evaluation (after debate handoff) ---'' @ nl
     @ critic_to_synth_text @ nl @ nl
     @ ''Synthesize the Reader'' @ apos @ ''s findings with the Critic'' @ apos @ ''s challenges. ''
     @ ''Generate hypotheses that address the Critic'' @ apos @ ''s concerns while building on the Reader''
     @ apos @ ''s insights. ''
     @ ''Reference specific points from both agents.''"

definition verify_input :: "string \<Rightarrow> string" where
  "verify_input synth_to_verifier_text =
     ''--- Synthesizer'' @ apos @ ''s Hypotheses (after debate handoff) ---'' @ nl
     @ synth_to_verifier_text @ nl @ nl
     @ ''Verify the Synthesizer'' @ apos @ ''s hypotheses against the original evidence. ''
     @ ''Consider the Reader'' @ apos @ ''s findings and the Critic'' @ apos @ ''s concerns. ''
     @ ''Reference specific hypotheses and explain your confidence assessment.''"

definition followup_input ::
  "'s platform \<Rightarrow> string \<Rightarrow> string \<Rightarrow> string \<Rightarrow> string \<Rightarrow> real \<Rightarrow> string \<Rightarrow> string" where
  "followup_input pf topic_text reader_content critic_to_synth_text synth_to_verifier_text
     verifier_confidence verifier_to_follow_text =
     ''--- Research Context ---'' @ nl
     @ ''Topic: '' @ topic_text @ nl @ nl
     @ ''Reader'' @ apos @ ''s Findings:'' @ nl @ take 500 reader_content @ ''...'' @ nl @ nl
     @ ''Critic'' @ apos @ ''s Challenges (debated):'' @ nl @ take 500 critic_to_synth_text @ ''...''
     @ nl @ nl
     @ ''Synthesizer'' @ apos @ ''s Hypotheses (debated):'' @ nl @ take 500 synth_to_verifier_text
     @ ''...'' @ nl @ nl
     @ ''Verifier'' @ apos @ ''s Assessment (debated, Confidence: '' @ float_repr pf verifier_confidence
     @ ''):'' @ nl @ take 500 verifier_to_follow_text @ ''...'' @ nl @ nl
     @ ''Based on the complete multi-agent analysis above, propose follow-up research questions ''
     @ ''and identify knowledge gaps. Reference specific findings from each agent.''"

text \<open>
  The result is \<open>turn_messages\<close> together with the local \<open>verifier_msg\<close>, whose
  confidence the loop tests after the turn.
\<close>

definition run_turn ::
  "'s platform \<Rightarrow> reader_agent \<Rightarrow> string \<Rightarrow> bool \<Rightarrow> nat \<Rightarrow> (message list \<times> message, 's) comp" where
  "run_turn pf rd topic_text debate_enabled debate_rounds =
     bindC (send pf (ReaderAgent rd) topic_text) (\<lambda>reader_msg.
     bindC (optional_debate pf debate_enabled debate_rounds (ReaderAgent rd) CriticAgent reader_msg)
       (\<lambda>(critic_handoff_text, debate_msgs1).
     bindC (send pf CriticAgent (critic_input critic_handoff_text)) (\<lambda>critic_msg.
     bindC (optional_debate pf debate_enabled debate_rounds CriticAgent SynthesizerAgent critic_msg)
       (\<lambda>(critic_to_synth_text, debate_msgs2).
     bindC (send pf SynthesizerAgent (synth_input (content reader_msg) critic_to_synth_text))
       (\<lambda>synth_msg.
     bindC (optional_debate pf debate_enabled debate_rounds SynthesizerAgent VerifierAgent synth_msg)
       (\<lambda>(synth_to_verifier_text, debate_msgs3).
     bindC (send pf VerifierAgent (verify_input synth_to_verifier_text)) (\<lambda>verifier_msg.
     bindC (optional_debate pf debate_enabled debate_rounds VerifierAgent FollowUpAgent verifier_msg)
       (\<lambda>(verifier_to_follow_text, debate_msgs4).
     bindC (send pf FollowUpAgent
              (followup_input pf topic_text (content reader_msg) critic_to_synth_text
                 synth_to_verifier_text (confidence verifier_msg) verifier_to_follow_text))
       (\<lambda>followup_msg.
          returnC ([reader_msg] @ debate_msgs1 @ [critic_msg] @ debate_msgs2 @ [synth_msg]
                   @ debate_msgs3 @ [verifier_msg] @ debate_msgs4 @ [followup_msg],
                   verifier_msg))))))))))"

subsection \<open>The turn loop\<close>

text \<open>
  \<open>for turn_index in range(max_turns)\<close>: the first numeric argument counts the turns
  still allowed, the second is \<open>turn_index\<close>, the list is \<open>trace.turns\<close> so far, each
  turn paired with the \<open>verifier_msg\<close> that the stop check read.
\<close>

fun run_turns ::
  "'s platform \<Rightarrow> reader_agent \<Rightarrow> string \<Rightarrow> real \<Rightarrow> bool \<Rightarrow> nat \<Rightarrow> nat \<Rightarrow> nat
     \<Rightarrow> (turn \<times> message) list \<Rightarrow> ((turn \<times> message) list, 's) comp" where
  "run_turns pf rd topic_text consensus_threshold debate_enabled debate_rounds 0 turn_index acc =
     returnC acc"
| "run_turns pf rd topic_text consensus_threshold debate_enabled debate_rounds (Suc k) turn_index acc =
     bindC (run_turn pf rd topic_text debate_enabled debate_rounds) (\<lambda>(turn_messages, verifier_msg).
       let acc' = acc @ [(\<lparr>index = turn_index, messages = turn_messages\<rparr>, verifier_msg)]
       in if consensus_threshold \<le> confidence verifier_msg then returnC acc'
          else run_turns pf rd topic_text consensus_threshold debate_enabled debate_rounds k
                 (Suc turn_index) acc')"

subsection \<open>Report derivation: \<open>Orchestrator._persist_report\<close>\<close>

text \<open>\<open>next((m for m in msgs if m.role == r), None)\<close>.\<close>

definition first_with_role :: "string \<Rightarrow> message list \<Rightarrow> message option" where
  "first_with_role r msgs = find (\<lambda>m. role m = r) msgs"

definition split_hypotheses :: "string \<Rightarrow> string list" where
  "split_hypotheses text =
     take 5 (filter (\<lambda>h. h \<noteq> []) (map py_strip (py_split (CHR ''.'') text)))"

text \<open>
  \<open>trace.turns[-1]\<close> raises \<open>IndexError\<close> on an empty list; \<open>InsightReport(...)\<close>
  validates its confidence as \<open>Message\<close> does.
\<close>

definition build_report :: "trace \<Rightarrow> error + insight_report" where
  "build_report tr =
     (if turns tr = [] then Inl IndexError
      else
        let last_turn = last (turns tr);
            synth = first_with_role ''synthesizer'' (messages last_turn);
            verifier = first_with_role ''verifier'' (messages last_turn);
            followup = first_with_role ''followup'' (messages last_turn);
            hyps = (case synth of None \<Rightarrow> [] | Some m \<Rightarrow> split_hypotheses (content m));
            cits = (case synth of None \<Rightarrow> [] | Some m \<Rightarrow> citations m)
                   @ (case verifier of None \<Rightarrow> [] | Some m \<Rightarrow> citations m)
                   @ (case followup of None \<Rightarrow> [] | Some m \<Rightarrow> citations m);
            summ = (case synth of None \<Rightarrow> [] | Some m \<Rightarrow> take 300 (content m))
                   @ (case followup of
                        None \<Rightarrow> []
                      | Some m \<Rightarrow> nl @ nl @ ''Follow-up Research Directions:'' @ nl
                                  @ take 200 (content m) @ ''...'');
            conf = (case verifier of None \<Rightarrow> 0 | Some m \<Rightarrow> confidence m)
        in if 0 \<le> conf \<and> conf \<le> 1
           then Inr \<lparr>report_run_id = run_id tr, report_topic = topic tr, summary = summ,
                     hypotheses = hyps, report_confidence = conf, report_citations = cits\<rparr>
           else Inl ValidationError)"

subsection \<open>The Run Controller's state and the trace store\<close>

text \<open>
  The orchestrator object holds the Extractor (\<open>self.reader\<close>, the only agent with
  state); the directory \<open>data/runs\<close> holds, for a run id, \<open>trace.json\<close> and
  \<open>report.json\<close>. \<open>json.dump\<close> followed by \<open>json.load\<close> and the model constructor is
  taken to give back the value written.
\<close>

record 's world =
  reader :: reader_agent
  traces :: "string \<Rightarrow> trace option"
  reports :: "string \<Rightarrow> insight_report option"
  llm_state :: 's

definition persist_trace :: "trace \<Rightarrow> 's world \<Rightarrow> 's world" where
  "persist_trace tr w = w\<lparr>traces := (traces w)(run_id tr \<mapsto> tr)\<rparr>"

definition persist_report :: "trace \<Rightarrow> 's world \<Rightarrow> (error + unit) \<times> 's world" where
  "persist_report tr w =
     (case build_report tr of
        Inl e \<Rightarrow> (Inl e, w)
      | Inr rp \<Rightarrow> (Inr (), w\<lparr>reports := (reports w)(run_id tr \<mapsto> rp)\<rparr>))"

definition load_trace :: "'s world \<Rightarrow> string \<Rightarrow> trace option" where
  "load_trace w rid = traces w rid"

definition load_report :: "'s world \<Rightarrow> string \<Rightarrow> insight_report option" where
  "load_report w rid = reports w rid"

subsection \<open>Construction of the Extractor: \<open>Orchestrator._init_reader\<close>\<close>

definition load_knowledge_base :: "'s platform \<Rightarrow> string option \<Rightarrow> kb_entry list" where
  "load_knowledge_base pf kb_path =
     (case load_kb_json pf (case kb_path of None \<Rightarrow> ''data/knowledge_base.json'' | Some p \<Rightarrow> p) of
        None \<Rightarrow> []
      | Some kb \<Rightarrow> kb)"

definition new_reader :: "'s platform \<Rightarrow> doc_chunk list option \<Rightarrow> int \<Rightarrow> string option \<Rightarrow> reader_agent" where
  "new_reader pf retr k kb_path =
     \<lparr>retriever = retr, bm25_k = nat (max 1 k), knowledge_base = load_knowledge_base pf kb_path\<rparr>"

definition init_reader :: "'s platform \<Rightarrow> doc_chunk list option \<Rightarrow> int \<Rightarrow> reader_agent" where
  "init_reader pf override_retriever k =
     (let enable = py_lower (getenv_default pf ''ENABLE_BM25'' ''auto'');
          retr =
            (case override_retriever of
               Some r \<Rightarrow> Some r
             | None \<Rightarrow>
                 if bm25_available pf \<and> (enable = ''true'' \<or> enable = ''auto'') then
                   (let chunks = load_and_chunk_pdfs pf (getenv_default pf ''BM25_FILES_DIR'' ''files'')
                    in if chunks \<noteq> [] then Some chunks else None)
                 else None);
          kb_path = getenv_default pf ''KNOWLEDGE_BASE_PATH'' ''data/knowledge_base.json''
      in new_reader pf retr k (Some kb_path))"

text \<open>\<open>Orchestrator()\<close> on an empty store.\<close>

definition new_orchestrator :: "'s platform \<Rightarrow> 's \<Rightarrow> 's world" where
  "new_orchestrator pf s =
     \<lparr>reader = init_reader pf None 4, traces = Map.empty, reports = Map.empty, llm_state = s\<rparr>"

subsection \<open>\<open>Orchestrator.run\<close>\<close>

text \<open>The per-run retrieval override at the head of \<open>run\<close>: the new value of \<open>self.reader\<close>.\<close>

definition override_reader ::
  "'s platform \<Rightarrow> bool option \<Rightarrow> string option \<Rightarrow> int \<Rightarrow> reader_agent \<Rightarrow> reader_agent" where
  "override_reader pf enable_bm25 files_dir k rd =
     (case enable_bm25 of
        None \<Rightarrow> rd
      | Some en \<Rightarrow>
          if \<not> bm25_available pf then rd
          else if en then
            (let use_dir = (case files_dir of
                              None \<Rightarrow> getenv_default pf ''BM25_FILES_DIR'' ''files''
                            | Some d \<Rightarrow> str_or d (getenv_default pf ''BM25_FILES_DIR'' ''files''));
                 chunks = load_and_chunk_pdfs pf use_dir;
                 override = (if chunks \<noteq> [] then Some chunks else None)
             in init_reader pf override k)
          else init_reader pf None k)"

definition debate_rounds_env :: "'s platform \<Rightarrow> nat" where
  "debate_rounds_env pf =
     (case int_of_str pf (getenv_default pf ''DEBATE_ROUNDS'' ''1'') of
        None \<Rightarrow> 1
      | Some n \<Rightarrow> nat (max 0 n))"

definition debate_enabled_env :: "'s platform \<Rightarrow> bool" where
  "debate_enabled_env pf =
     (py_lower (getenv_default pf ''DEBATE_ENABLE'' ''true'') = ''true'' \<and> 0 < debate_rounds_env pf)"

text \<open>
  \<open>rid\<close> is the value of \<open>uuid.uuid4()\<close> and \<open>now\<close> that of \<open>datetime.utcnow()\<close> in
  this call. The result is the returned run id or the exception raised, with the
  state the call leaves behind.
\<close>

definition run ::
  "'s platform \<Rightarrow> string \<Rightarrow> nat \<Rightarrow> string \<Rightarrow> int \<Rightarrow> real \<Rightarrow> bool option \<Rightarrow> string option \<Rightarrow> int
     \<Rightarrow> 's world \<Rightarrow> (error + string) \<times> 's world" where
  "run pf rid now topic_text max_turns consensus_threshold enable_bm25 files_dir k w =
     (let trace0 = \<lparr>run_id = rid, topic = topic_text, created_at = now,
                     status = ''running'', turns = []\<rparr>;
          w1 = w\<lparr>reader := override_reader pf enable_bm25 files_dir k (reader w)\<rparr>
      in case run_turns pf (reader w1) topic_text consensus_threshold (debate_enabled_env pf)
                (debate_rounds_env pf) (nat max_turns) 0 [] (llm_state w1) of
           (Inl e, s') \<Rightarrow> (Inl e, w1\<lparr>llm_state := s'\<rparr>)
         | (Inr tvs, s') \<Rightarrow>
             (let tr = trace0\<lparr>turns := map fst tvs, status := ''complete''\<rparr>;
                  w2 = persist_trace tr (w1\<lparr>llm_state := s'\<rparr>)
              in case persist_report tr w2 of
                   (Inl e, w3) \<Rightarrow> (Inl e, w3)
                 | (Inr u, w3) \<Rightarrow> (Inr rid, w3)))"

section \<open>Specification predicates\<close>

text \<open>
  A provider set-up under which no agent call raises: a configured client either answers
  with a confidence that \<open>Message\<close> accepts or fails while the placeholder fallback is
  permitted; with no client configured the placeholder must be permitted.
\<close>

definition provider_reliable :: "'s platform \<Rightarrow> bool" where
  "provider_reliable pf =
     (if provider_env_set pf
      then (\<forall>i p s. case llm_generate pf i p s of
                      (Inr (c, cits, conf), s') \<Rightarrow> 0 \<le> conf \<and> conf \<le> 1
                    | (Inl e, s') \<Rightarrow> \<not> require_provider pf)
      else \<not> require_provider pf)"

text \<open>
  The shape of a debate log that starts at round \<open>r\<close> with \<open>k\<close> rounds allowed: triples
  of B asks, A answers, B synthesis, each tagged with its round, ending at the first
  synthesis that signals completion or with the last allowed round. \<open>ra\<close> and \<open>rb\<close> are
  the roles of the two agents, \<open>a_role\<close> and \<open>b_role\<close> the labels printed in the tags.
\<close>

fun round_log :: "string \<Rightarrow> string \<Rightarrow> string \<Rightarrow> string \<Rightarrow> nat \<Rightarrow> nat \<Rightarrow> message list \<Rightarrow> bool" where
  "round_log ra rb a_role b_role k r (q # an # sy # rest) =
     (0 < k \<and> role q = rb \<and> role an = ra \<and> role sy = rb
      \<and> prefix (debate_header a_role b_role b_role ''asks'' r) (content q)
      \<and> prefix (debate_header a_role b_role a_role ''answers'' r) (content an)
      \<and> prefix (debate_header a_role b_role b_role ''synthesis'' r) (content sy)
      \<and> (if signals_done sy \<or> k = 1 then rest = []
         else round_log ra rb a_role b_role (k - 1) (Suc r) rest))"
| "round_log ra rb a_role b_role k r msgs = False"

text \<open>What a boundary between two stages contributes to a turn.\<close>

definition boundary_log :: "bool \<Rightarrow> nat \<Rightarrow> string \<Rightarrow> string \<Rightarrow> message list \<Rightarrow> bool" where
  "boundary_log debate_enabled n a_role b_role d =
     (if debate_enabled then round_log a_role b_role a_role b_role n 1 d else d = [])"

text \<open>
  The temporal layout of a turn's messages; \<open>v\<close> is the Validator's pipeline message,
  the one whose confidence the stop check reads.
\<close>

definition turn_layout :: "bool \<Rightarrow> nat \<Rightarrow> message list \<Rightarrow> message \<Rightarrow> bool" where
  "turn_layout debate_enabled n msgs v =
     (\<exists>m1 d1 m2 d2 m3 d3 d4 m5.
        msgs = m1 # d1 @ m2 # d2 @ m3 # d3 @ v # d4 @ [m5]
        \<and> role m1 = ''reader'' \<and> role m2 = ''critic'' \<and> role m3 = ''synthesizer''
        \<and> role v = ''verifier'' \<and> role m5 = ''followup''
        \<and> boundary_log debate_enabled n ''reader'' ''critic'' d1
        \<and> boundary_log debate_enabled n ''critic'' ''synthesizer'' d2
        \<and> boundary_log debate_enabled n ''synthesizer'' ''verifier'' d3
        \<and> boundary_log debate_enabled n ''verifier'' ''followup'' d4)"

definition valid_confidences :: "message list \<Rightarrow> bool" where
  "valid_confidences msgs = (\<forall>m\<in>set msgs. 0 \<le> confidence m \<and> confidence m \<le> 1)"

text \<open>
  The shape of the turn list built from turn index \<open>i\<close> with \<open>k\<close> turns allowed: it
  ends at the first turn whose Validator reaches the threshold or with the last allowed
  turn.
\<close>

fun turns_log :: "real \<Rightarrow> nat \<Rightarrow> nat \<Rightarrow> (turn \<times> message) list \<Rightarrow> bool" where
  "turns_log thr k i [] = (k = 0)"
| "turns_log thr k i (tv # rest) =
     (0 < k \<and> index (fst tv) = i
      \<and> (if thr \<le> confidence (snd tv) \<or> k = 1 then rest = []
         else turns_log thr (k - 1) (Suc i) rest))"

section \<open>Concrete platforms for evaluation\<close>

text \<open>
  A provider client that counts its calls: the calls numbered in \<open>sure\<close> answer with
  confidence 0.9, the others with 0.6; the calls numbered in \<open>fine\<close> answer with a text
  that carries the completion marker.
\<close>

definition counting_llm ::
  "nat list \<Rightarrow> nat list \<Rightarrow> string \<Rightarrow> string \<Rightarrow> nat \<Rightarrow> (error + response) \<times> nat" where
  "counting_llm sure fine instructions prompt s =
     (Inr (if s \<in> set fine then ''Clear. [Done]'' else ''Open. [MORE]'',
           [''ref''],
           if s \<in> set sure then 0.9 else 0.6),
      Suc s)"

definition no_chunks :: "string \<Rightarrow> doc_chunk list" where
  "no_chunks d = []"

text \<open>
  A platform with a configured client, the environment \<open>env\<close> and no files; the
  library functions that the evaluated runs never reach are constant.
\<close>

definition counting_platform ::
  "(string \<Rightarrow> string option) \<Rightarrow> nat list \<Rightarrow> nat list \<Rightarrow> nat platform" where
  "counting_platform env sure fine =
     \<lparr>getenv = env, llm_generate = counting_llm sure fine, sha256_utf8 = (\<lambda>x. 0),
      float_repr = (\<lambda>x. ''0.9''), int_of_str = (\<lambda>x. if x = ''2'' then Some 2 else Some 1),
      bm25_available = False, load_and_chunk_pdfs = no_chunks, load_kb_json = (\<lambda>p. None),
      bm25_get_scores = (\<lambda>c q. []), re_findall_words = (\<lambda>x. [])\<rparr>"


definition env_debate :: "string \<Rightarrow> string option" where
  "env_debate = [''LLM_PROVIDER'' \<mapsto> ''groq'']"

text \<open>
  The message an agent returns when the offline placeholder answers, and the turn the
  pipeline then produces with debate disabled.
\<close>

definition mock_message :: "'s platform \<Rightarrow> agent \<Rightarrow> string \<Rightarrow> message" where
  "mock_message pf ag prompt =
     (let p = agent_prompt pf ag prompt;
          h = sha256_utf8 pf (role_prompt ag @ nl @ p)
      in \<lparr>role = role_name ag,
          content = mock_content (role_name ag) (role_prompt ag) p,
          citations = [''mock://ref/'' @ hex8 (digest_hi h), ''mock://ref/'' @ hex8 (digest_next h)],
          confidence = mock_confidence h\<rparr>)"

definition plain_turn :: "'s platform \<Rightarrow> reader_agent \<Rightarrow> string \<Rightarrow> message list \<times> message" where
  "plain_turn pf rd topic_text =
     (let m1 = mock_message pf (ReaderAgent rd) topic_text;
          m2 = mock_message pf CriticAgent (critic_input (content m1));
          m3 = mock_message pf SynthesizerAgent (synth_input (content m1) (content m2));
          m4 = mock_message pf VerifierAgent (verify_input (content m3));
          m5 = mock_message pf FollowUpAgent
                 (followup_input pf topic_text (content m1) (content m2) (content m3)
                    (confidence m4) (content m4))
      in ([m1, m2, m3, m4, m5], m4))"

text \<open>
  A platform with no provider client configured, debate disabled and one folder of
  documents, \<open>docs\<close>, holding a single chunk; the default folder \<open>files\<close> is empty and
  there is no knowledge base file. The digest function is a stand-in: no statement made
  below depends on the digest values.
\<close>

definition docs_chunk :: doc_chunk where
  "docs_chunk = \<lparr>page_content = ''alpha beta'', meta_source = Some ''a.pdf'',
                  meta_chunk_id = Some ''a.pdf__chunk0''\<rparr>"

definition one_folder :: "string \<Rightarrow> doc_chunk list" where
  "one_folder d = (if d = ''docs'' then [docs_chunk] else [])"

definition placeholder_platform :: "nat platform" where
  "placeholder_platform =
     \<lparr>getenv = [''DEBATE_ENABLE'' \<mapsto> ''false''],
      llm_generate = (\<lambda>i p s. (Inl ProviderError, s)), sha256_utf8 = (\<lambda>x. 0),
      float_repr = (\<lambda>x. ''0.55''), int_of_str = (\<lambda>x. Some 1),
      bm25_available = True, load_and_chunk_pdfs = one_folder, load_kb_json = (\<lambda>p. None),
      bm25_get_scores = (\<lambda>c q. [1]), re_findall_words = (\<lambda>x. [x])\<rparr>"

section \<open>Auxiliary facts\<close>

lemma bindC_Inr:
  "bindC m f s = (Inr y, s') \<longleftrightarrow> (\<exists>x s1. m s = (Inr x, s1) \<and> f x s1 = (Inr y, s'))"
  by (auto simp: bindC_def split: prod.splits sum.splits)

lemma returnC_Inr: "returnC x s = (Inr y, s') \<longleftrightarrow> y = x \<and> s' = s"
  by (auto simp: returnC_def)

lemma py_round3_bounds:
  assumes lo: "of_int a \<le> x * 1000" and hi: "x * 1000 \<le> of_int b"
  shows "of_int a / 1000 \<le> py_round3 x \<and> py_round3 x \<le> of_int b / 1000"
proof -
  define y where "y = x * 1000"
  define f where "f = \<lfloor>y\<rfloor>"
  define v where "v = (if y - of_int f < 1 / 2 then f
                 else if 1 / 2 < y - of_int f then f + 1
                 else if even f then f else f + 1)"
  have r: "py_round3 x = of_int v / 1000"
    by (simp add: py_round3_def Let_def y_def f_def v_def)
  have fa: "a \<le> f" using lo by (simp add: f_def y_def le_floor_iff)
  have fb: "f \<le> b" using hi by (simp add: f_def y_def floor_le_iff)
  have fy: "of_int f \<le> y" by (simp add: f_def)
  have up: "v \<le> b"
  proof (cases "y - of_int f < 1 / 2")
    case True
    then show ?thesis using fb by (simp add: v_def)
  next
    case False
    then have "of_int f + 1 / 2 \<le> y" by simp
    then have "of_int f < (of_int b :: real)" using hi by (simp add: y_def)
    then have "f < b" by simp
    then show ?thesis by (simp add: v_def)
  qed
  have dn: "a \<le> v" using fa by (simp add: v_def)
  have "(of_int a :: real) \<le> of_int v" "(of_int v :: real) \<le> of_int b"
    using dn up by simp_all
  then show ?thesis by (simp add: r divide_right_mono)
qed

lemma digest_hi_bound: "digest_hi h < 2 ^ 32"
proof -
  have "unat h < 2 ^ 256"
    using unsigned_less[of h, where 'a = nat] by simp
  then have "unat h < 2 ^ 32 * 2 ^ 224" by simp
  then have "unat h div 2 ^ 224 < 2 ^ 32"
    by (rule less_mult_imp_div_less)
  moreover have "digest_hi h = drop_bit 224 (unat h)"
    by (simp only: digest_hi_def unat_drop_bit_eq)
  ultimately show ?thesis
    by (simp only: drop_bit_eq_div)
qed

lemma mock_confidence_range: "0.55 \<le> mock_confidence h \<and> mock_confidence h \<le> 0.95"
proof -
  define q where "q = real (digest_hi h) / 4294967295"
  have "digest_hi h \<le> 4294967295" using digest_hi_bound[of h] by simp
  then have q: "0 \<le> q" "q \<le> 1" by (simp_all add: q_def)
  have "of_int 550 \<le> (0.55 + 0.4 * q) * 1000" "(0.55 + 0.4 * q) * 1000 \<le> of_int 950"
    using q by simp_all
  from py_round3_bounds[OF this] show ?thesis
    by (simp add: mock_confidence_def q_def)
qed

lemma role_prompt_nonempty: "role_prompt ag \<noteq> []"
  by (cases ag) simp_all

lemma mock_response_ok:
  "instructions \<noteq> [] \<Longrightarrow> \<exists>c cits conf. mock_response pf rn instructions p = Inr (c, cits, conf) \<and> 0 \<le> conf \<and> conf \<le> 1"
  using mock_confidence_range[of "sha256_utf8 pf (instructions @ nl @ p)"]
  by (simp add: mock_response_def Let_def)

lemma send_role:
  assumes "send pf ag p s = (Inr m, s')"
  shows "role m = role_name ag \<and> 0 \<le> confidence m \<and> confidence m \<le> 1"
  using assms
  by (auto simp: send_def base_send_def bindC_Inr returnC_Inr raiseC_def new_message_def
      split: sum.splits prod.splits if_splits)

lemma call_grok_api_ok:
  assumes "provider_reliable pf" "instructions \<noteq> []"
  shows "\<exists>c cits conf s'. call_grok_api pf rn p instructions s = (Inr (c, cits, conf), s')
           \<and> 0 \<le> conf \<and> conf \<le> 1"
proof (cases "provider_env_set pf")
  case True
  with assms(1) have rel: "case llm_generate pf instructions p s of
      (Inr (c, cits, conf), s') \<Rightarrow> 0 \<le> conf \<and> conf \<le> 1
    | (Inl e, s') \<Rightarrow> \<not> require_provider pf"
    by (simp add: provider_reliable_def)
  obtain res s1 where g: "llm_generate pf instructions p s = (res, s1)"
    by (cases "llm_generate pf instructions p s")
  show ?thesis
  proof (cases res)
    case (Inl e)
    with rel g have "\<not> require_provider pf" by simp
    with True g Inl mock_response_ok[OF assms(2), of pf rn p] show ?thesis
      by (auto simp: call_grok_api_def)
  next
    case (Inr r)
    obtain c cits conf where r: "r = (c, cits, conf)" by (cases r)
    with rel g Inr have "0 \<le> conf \<and> conf \<le> 1" by simp
    with True g Inr r show ?thesis by (simp add: call_grok_api_def)
  qed
next
  case False
  with assms(1) have "\<not> require_provider pf" by (simp add: provider_reliable_def)
  with False mock_response_ok[OF assms(2), of pf rn p] show ?thesis
    by (auto simp: call_grok_api_def)
qed

lemma send_ok:
  assumes "provider_reliable pf"
  shows "\<exists>m s'. send pf ag p s = (Inr m, s')"
proof -
  from call_grok_api_ok[OF assms role_prompt_nonempty]
  obtain c cits conf s' where
    "call_grok_api pf (role_name ag) (agent_prompt pf ag p) (role_prompt ag) s = (Inr (c, cits, conf), s')"
    "0 \<le> conf" "conf \<le> 1" by blast
  then show ?thesis
    by (simp add: send_def base_send_def bindC_def new_message_def returnC_def)
qed

lemma tagged_simps [simp]:
  "role (tagged h m) = role m" "confidence (tagged h m) = confidence m"
  "citations (tagged h m) = citations m" "content (tagged h m) = h @ content m"
  by (simp_all add: tagged_def)

lemma debate_loop_log:
  assumes "debate_loop pf a b ctx a_role b_role k r acc s = (Inr (latest, msgs), s')" "0 < k"
  shows "\<exists>new. msgs = snd acc @ new \<and> round_log (role_name a) (role_name b) a_role b_role k r new
           \<and> latest = content (last new) \<and> (\<forall>m\<in>set new. 0 \<le> confidence m \<and> confidence m \<le> 1)"
  using assms
proof (induction k arbitrary: r acc s)
  case 0
  then show ?case by simp
next
  case (Suc k)
  from Suc.prems(1) obtain q0 s1 an0 s2 sy0 s3 where
    q: "send pf b (b_q_prompt a_role b_role ctx) s = (Inr q0, s1)" and
    an: "send pf a (a_ans_prompt a_role b_role r
           (content (tagged (debate_header a_role b_role b_role ''asks'' r) q0))) s1 = (Inr an0, s2)" and
    sy: "send pf b (b_sum_prompt a_role b_role r ctx
           (content (tagged (debate_header a_role b_role a_role ''answers'' r) an0))) s2 = (Inr sy0, s3)" and
    rest: "(let b_sum_msg = tagged (debate_header a_role b_role b_role ''synthesis'' r) sy0;
               acc' = (content b_sum_msg, snd acc @ [tagged (debate_header a_role b_role b_role ''asks'' r) q0,
                          tagged (debate_header a_role b_role a_role ''answers'' r) an0, b_sum_msg])
           in if signals_done b_sum_msg then returnC acc'
              else debate_loop pf a b ctx a_role b_role k (Suc r) acc') s3 = (Inr (latest, msgs), s')"
    by (auto simp: bindC_Inr Let_def)
  define Q where "Q = tagged (debate_header a_role b_role b_role ''asks'' r) q0"
  define A where "A = tagged (debate_header a_role b_role a_role ''answers'' r) an0"
  define S where "S = tagged (debate_header a_role b_role b_role ''synthesis'' r) sy0"
  note roles = send_role[OF q] send_role[OF an] send_role[OF sy]
  have triple: "role Q = role_name b" "role A = role_name a" "role S = role_name b"
    "prefix (debate_header a_role b_role b_role ''asks'' r) (content Q)"
    "prefix (debate_header a_role b_role a_role ''answers'' r) (content A)"
    "prefix (debate_header a_role b_role b_role ''synthesis'' r) (content S)"
    "\<forall>m\<in>set [Q, A, S]. 0 \<le> confidence m \<and> confidence m \<le> 1"
    using roles by (simp_all add: Q_def A_def S_def)
  show ?case
  proof (cases "signals_done S \<or> k = 0")
    case True
    then have "latest = content S \<and> msgs = snd acc @ [Q, A, S]"
      using rest by (auto simp: Let_def returnC_Inr Q_def A_def S_def split: if_splits)
    then show ?thesis using triple True
      by (intro exI[of _ "[Q, A, S]"]) simp
  next
    case False
    then have rec: "debate_loop pf a b ctx a_role b_role k (Suc r) (content S, snd acc @ [Q, A, S]) s3
                = (Inr (latest, msgs), s')"
      using rest by (simp add: Let_def Q_def A_def S_def)
    from False have "0 < k" by simp
    from Suc.IH[OF rec this] obtain new where
      new: "msgs = (snd acc @ [Q, A, S]) @ new"
        "round_log (role_name a) (role_name b) a_role b_role k (Suc r) new"
        "latest = content (last new)" "\<forall>m\<in>set new. 0 \<le> confidence m \<and> confidence m \<le> 1"
      by auto
    from new(2) have ne: "new \<noteq> []" by (cases new) auto
    show ?thesis using new triple False ne
      by (intro exI[of _ "[Q, A, S] @ new"]) auto
  qed
qed


lemma debate_loop_ok:
  assumes "provider_reliable pf"
  shows "\<exists>res s'. debate_loop pf a b ctx a_role b_role k r acc s = (Inr res, s')"
proof (induction k arbitrary: r acc s)
  case 0
  show ?case by (simp add: returnC_def)
next
  case (Suc k)
  obtain q0 s1 where q: "send pf b (b_q_prompt a_role b_role ctx) s = (Inr q0, s1)"
    using send_ok[OF assms] by blast
  define Q where "Q = tagged (debate_header a_role b_role b_role ''asks'' r) q0"
  obtain an0 s2 where an: "send pf a (a_ans_prompt a_role b_role r (content Q)) s1 = (Inr an0, s2)"
    using send_ok[OF assms] by blast
  define A where "A = tagged (debate_header a_role b_role a_role ''answers'' r) an0"
  obtain sy0 s3 where sy: "send pf b (b_sum_prompt a_role b_role r ctx (content A)) s2 = (Inr sy0, s3)"
    using send_ok[OF assms] by blast
  define S where "S = tagged (debate_header a_role b_role b_role ''synthesis'' r) sy0"
  from Suc.IH[of "Suc r" "(content S, snd acc @ [Q, A, S])" s3]
  obtain res s' where
    "debate_loop pf a b ctx a_role b_role k (Suc r) (content S, snd acc @ [Q, A, S]) s3 = (Inr res, s')"
    by blast
  with q an sy show ?case
    unfolding debate_loop.simps Q_def A_def S_def
    by (simp add: bindC_def Let_def returnC_def)
qed

lemma debate_ok:
  assumes "provider_reliable pf"
  shows "\<exists>res s'. debate pf a b ctx a_role b_role n s = (Inr res, s')"
proof -
  obtain res s' where "debate_loop pf a b ctx a_role b_role n 1 ([], []) s = (Inr res, s')"
    using debate_loop_ok[OF assms] by blast
  then show ?thesis
    by (simp add: debate_def bindC_def returnC_def split: prod.splits)
qed

lemma debate_log:
  assumes "debate pf a b ctx a_role b_role n s = (Inr (handoff, msgs), s')" "0 < n"
  shows "round_log (role_name a) (role_name b) a_role b_role n 1 msgs
         \<and> (\<forall>m\<in>set msgs. 0 \<le> confidence m \<and> confidence m \<le> 1)"
proof -
  from assms(1) obtain latest s1 where
    "debate_loop pf a b ctx a_role b_role n 1 ([], []) s = (Inr (latest, msgs), s1)"
    by (auto simp: debate_def bindC_Inr returnC_Inr)
  from debate_loop_log[OF this assms(2)] show ?thesis by simp
qed



lemma optional_debate_log:
  assumes "optional_debate pf deb n a b msg s = (Inr (h, d), s')" "deb \<longrightarrow> 0 < n"
  shows "boundary_log deb n (role_name a) (role_name b) d \<and> valid_confidences d"
proof (cases deb)
  case True
  with assms(1) obtain h0 where
    "debate pf a b (content msg) (role_name a) (role_name b) n s = (Inr (h0, d), s')"
    by (auto simp: optional_debate_def bindC_Inr returnC_Inr)
  from debate_log[OF this] assms(2) True show ?thesis
    by (simp add: boundary_log_def valid_confidences_def)
next
  case False
  with assms(1) show ?thesis
    by (simp add: optional_debate_def returnC_Inr boundary_log_def valid_confidences_def)
qed

lemma optional_debate_ok:
  assumes "provider_reliable pf"
  shows "\<exists>res s'. optional_debate pf deb n a b msg s = (Inr res, s')"
proof (cases deb)
  case True
  obtain res s' where "debate pf a b (content msg) (role_name a) (role_name b) n s = (Inr res, s')"
    using debate_ok[OF assms] by blast
  with True show ?thesis
    by (simp add: optional_debate_def bindC_def returnC_def split: prod.splits)
next
  case False
  then show ?thesis by (simp add: optional_debate_def returnC_def)
qed

lemma run_turn_layout:
  assumes "run_turn pf rd topic_text deb n s = (Inr (msgs, v), s')" "deb \<longrightarrow> 0 < n"
  shows "turn_layout deb n msgs v \<and> valid_confidences msgs"
proof -
  from assms(1) obtain m1 s1 h1 d1 s2 m2 s3 h2 d2 s4 m3 s5 h3 d3 s6 s7 h4 d4 s8 m5 where
    m1: "send pf (ReaderAgent rd) topic_text s = (Inr m1, s1)" and
    d1: "optional_debate pf deb n (ReaderAgent rd) CriticAgent m1 s1 = (Inr (h1, d1), s2)" and
    m2: "send pf CriticAgent (critic_input h1) s2 = (Inr m2, s3)" and
    d2: "optional_debate pf deb n CriticAgent SynthesizerAgent m2 s3 = (Inr (h2, d2), s4)" and
    m3: "send pf SynthesizerAgent (synth_input (content m1) h2) s4 = (Inr m3, s5)" and
    d3: "optional_debate pf deb n SynthesizerAgent VerifierAgent m3 s5 = (Inr (h3, d3), s6)" and
    m4: "send pf VerifierAgent (verify_input h3) s6 = (Inr v, s7)" and
    d4: "optional_debate pf deb n VerifierAgent FollowUpAgent v s7 = (Inr (h4, d4), s8)" and
    m5: "send pf FollowUpAgent (followup_input pf topic_text (content m1) h2 h3 (confidence v) h4) s8
           = (Inr m5, s')" and
    msgs: "msgs = [m1] @ d1 @ [m2] @ d2 @ [m3] @ d3 @ [v] @ d4 @ [m5]"
    unfolding run_turn_def bindC_Inr returnC_Inr by (auto simp: bindC_Inr returnC_Inr)
  note r = send_role[OF m1] send_role[OF m2] send_role[OF m3] send_role[OF m4] send_role[OF m5]
  note l = optional_debate_log[OF d1 assms(2)] optional_debate_log[OF d2 assms(2)]
           optional_debate_log[OF d3 assms(2)] optional_debate_log[OF d4 assms(2)]
  have msgs': "msgs = m1 # d1 @ m2 # d2 @ m3 # d3 @ v # d4 @ [m5]"
    using msgs by simp
  have roles: "role m1 = ''reader''" "role m2 = ''critic''" "role m3 = ''synthesizer''"
    "role v = ''verifier''" "role m5 = ''followup''"
    using r by simp_all
  have logs: "boundary_log deb n ''reader'' ''critic'' d1"
    "boundary_log deb n ''critic'' ''synthesizer'' d2"
    "boundary_log deb n ''synthesizer'' ''verifier'' d3"
    "boundary_log deb n ''verifier'' ''followup'' d4"
    using l by simp_all
  have "turn_layout deb n msgs v"
    unfolding turn_layout_def
    using msgs' roles logs by blast
  moreover have "valid_confidences msgs"
    using r l unfolding msgs' valid_confidences_def by auto
  ultimately show ?thesis by simp
qed

lemma run_turn_ok:
  assumes "provider_reliable pf"
  shows "\<exists>res s'. run_turn pf rd topic_text deb n s = (Inr res, s')"
proof -
  note so = send_ok[OF assms] and od = optional_debate_ok[OF assms]
  obtain m1 s1 where m1: "send pf (ReaderAgent rd) topic_text s = (Inr m1, s1)"
    using so by blast
  obtain h1 d1 s2 where d1: "optional_debate pf deb n (ReaderAgent rd) CriticAgent m1 s1 = (Inr (h1, d1), s2)"
    using od by (metis surj_pair)
  obtain m2 s3 where m2: "send pf CriticAgent (critic_input h1) s2 = (Inr m2, s3)"
    using so by blast
  obtain h2 d2 s4 where d2: "optional_debate pf deb n CriticAgent SynthesizerAgent m2 s3 = (Inr (h2, d2), s4)"
    using od by (metis surj_pair)
  obtain m3 s5 where m3: "send pf SynthesizerAgent (synth_input (content m1) h2) s4 = (Inr m3, s5)"
    using so by blast
  obtain h3 d3 s6 where d3: "optional_debate pf deb n SynthesizerAgent VerifierAgent m3 s5 = (Inr (h3, d3), s6)"
    using od by (metis surj_pair)
  obtain v s7 where m4: "send pf VerifierAgent (verify_input h3) s6 = (Inr v, s7)"
    using so by blast
  obtain h4 d4 s8 where d4: "optional_debate pf deb n VerifierAgent FollowUpAgent v s7 = (Inr (h4, d4), s8)"
    using od by (metis surj_pair)
  obtain m5 s9 where m5: "send pf FollowUpAgent (followup_input pf topic_text (content m1) h2 h3 (confidence v) h4) s8
           = (Inr m5, s9)"
    using so by blast
  show ?thesis
    unfolding run_turn_def using m1 d1 m2 d2 m3 d3 m4 d4 m5
    by (simp add: bindC_def returnC_def)
qed

section \<open>Debate sub-dialogue\<close>



lemma counting_send:
  assumes "provider_env_set (counting_platform env sure fine)"
  shows "send (counting_platform env sure fine) ag p s =
     (Inr \<lparr>role = role_name ag,
            content = (if s \<in> set fine then ''Clear. [Done]'' else ''Open. [MORE]''),
            citations = [''ref''],
            confidence = (if s \<in> set sure then 0.9 else 0.6)\<rparr>, Suc s)"
  using assms
  by (simp add: send_def base_send_def bindC_def call_grok_api_def counting_platform_def
      counting_llm_def new_message_def returnC_def)

lemma env_debate_set: "provider_env_set (counting_platform env_debate sure fine)"
  by (simp add: provider_env_set_def env_truthy_def env_debate_def counting_platform_def)


lemma counting_reliable:
  "provider_env_set (counting_platform env sure fine)
     \<Longrightarrow> provider_reliable (counting_platform env sure fine)"
  by (simp add: provider_reliable_def) (simp add: counting_platform_def counting_llm_def)





section \<open>The turn loop and the run\<close>

lemma run_turns_log:
  assumes "run_turns pf rd topic_text thr deb n k i acc s = (Inr tvs, s')" "deb \<longrightarrow> 0 < n"
  shows "\<exists>new. tvs = acc @ new \<and> turns_log thr k i new
           \<and> (\<forall>tv\<in>set new. turn_layout deb n (messages (fst tv)) (snd tv)
                             \<and> valid_confidences (messages (fst tv)))"
  using assms(1)
proof (induction k arbitrary: i acc s)
  case 0
  then show ?case by (simp add: returnC_Inr)
next
  case (Suc k)
  from Suc.prems obtain msgs v s1 where
    t: "run_turn pf rd topic_text deb n s = (Inr (msgs, v), s1)" and
    rest: "(if thr \<le> confidence v then returnC (acc @ [(\<lparr>index = i, messages = msgs\<rparr>, v)])
            else run_turns pf rd topic_text thr deb n k (Suc i)
                   (acc @ [(\<lparr>index = i, messages = msgs\<rparr>, v)])) s1 = (Inr tvs, s')"
    by (auto simp: bindC_Inr Let_def)
  define tv where "tv = (\<lparr>index = i, messages = msgs\<rparr>, v)"
  have lay: "turn_layout deb n (messages (fst tv)) (snd tv) \<and> valid_confidences (messages (fst tv))"
    using run_turn_layout[OF t assms(2)] by (simp add: tv_def)
  have idx: "index (fst tv) = i" by (simp add: tv_def)
  show ?case
  proof (cases "thr \<le> confidence v \<or> k = 0")
    case True
    then have "tvs = acc @ [tv]"
      using rest by (auto simp: returnC_Inr tv_def split: if_splits)
    moreover have "turns_log thr (Suc k) i [tv]"
      using True idx by (auto simp: tv_def)
    ultimately show ?thesis using lay
      by (intro exI[of _ "[tv]"]) (simp del: turns_log.simps)
  next
    case False
    then have rec: "run_turns pf rd topic_text thr deb n k (Suc i) (acc @ [tv]) s1 = (Inr tvs, s')"
      using rest by (simp add: tv_def)
    from Suc.IH[OF rec] obtain new where
      new: "tvs = (acc @ [tv]) @ new" "turns_log thr k (Suc i) new"
        "\<forall>tv\<in>set new. turn_layout deb n (messages (fst tv)) (snd tv)
                       \<and> valid_confidences (messages (fst tv))"
      by blast
    have "turns_log thr (Suc k) i (tv # new)"
      using False new(2) idx by (simp add: tv_def)
    with new lay show ?thesis by (intro exI[of _ "tv # new"]) simp
  qed
qed

lemma run_turns_ok:
  assumes "provider_reliable pf"
  shows "\<exists>tvs s'. run_turns pf rd topic_text thr deb n k i acc s = (Inr tvs, s')"
proof (induction k arbitrary: i acc s)
  case 0
  show ?case by (simp add: returnC_def)
next
  case (Suc k)
  obtain msgs v s1 where t: "run_turn pf rd topic_text deb n s = (Inr (msgs, v), s1)"
    using run_turn_ok[OF assms] by (metis surj_pair)
  from Suc.IH[of "Suc i" "acc @ [(\<lparr>index = i, messages = msgs\<rparr>, v)]" s1]
  obtain tvs s' where
    "run_turns pf rd topic_text thr deb n k (Suc i) (acc @ [(\<lparr>index = i, messages = msgs\<rparr>, v)]) s1
       = (Inr tvs, s')" by blast
  with t show ?case
    by (simp add: bindC_def returnC_def Let_def)
qed

lemma turns_log_props:
  assumes "turns_log thr k i new"
  shows "length new \<le> k \<and> (0 < k \<longrightarrow> new \<noteq> [])
     \<and> (\<forall>j<length new. index (fst (new ! j)) = i + j
            \<and> (thr \<le> confidence (snd (new ! j)) \<longrightarrow> Suc j = length new))
     \<and> (length new < k \<longrightarrow> new \<noteq> [] \<and> thr \<le> confidence (snd (last new)))"
  using assms
proof (induction thr k i new rule: turns_log.induct)
  case (1 thr k i)
  then show ?case by simp
next
  case (2 thr k i tv rest)
  show ?case
  proof (cases "thr \<le> confidence (snd tv) \<or> k = 1")
    case True
    with "2.prems" have rest: "rest = []" and kpos: "0 < k" and hd: "index (fst tv) = i"
      by simp_all
    have c1: "length [tv] \<le> k" using kpos by simp
    have c2: "\<forall>j<length [tv]. index (fst ([tv] ! j)) = i + j
            \<and> (thr \<le> confidence (snd ([tv] ! j)) \<longrightarrow> Suc j = length [tv])"
      using hd by simp
    have c3: "length [tv] < k \<longrightarrow> [tv] \<noteq> [] \<and> thr \<le> confidence (snd (last [tv]))"
      using True by auto
    have c4: "0 < k \<longrightarrow> [tv] \<noteq> []" by simp
    from c1 c2 c3 c4 show ?thesis unfolding rest by blast
  next
    case False
    with "2.prems" have tl: "turns_log thr (k - 1) (Suc i) rest" and kpos: "0 < k"
      and hd: "index (fst tv) = i" by simp_all
    note IH = "2.IH"[OF False tl]
    from False kpos have "0 < k - 1" by simp
    with IH have ne: "rest \<noteq> []" by blast
    from IH have l: "length rest \<le> k - 1" by blast
    have c1: "length (tv # rest) \<le> k" using l kpos by simp
    have c2: "\<forall>j<length (tv # rest). index (fst ((tv # rest) ! j)) = i + j
            \<and> (thr \<le> confidence (snd ((tv # rest) ! j)) \<longrightarrow> Suc j = length (tv # rest))"
    proof (intro allI impI)
      fix j assume j: "j < length (tv # rest)"
      show "index (fst ((tv # rest) ! j)) = i + j
            \<and> (thr \<le> confidence (snd ((tv # rest) ! j)) \<longrightarrow> Suc j = length (tv # rest))"
      proof (cases j)
        case 0
        with hd False show ?thesis by simp
      next
        case (Suc j')
        with j have "j' < length rest" by simp
        with IH have "index (fst (rest ! j')) = Suc i + j'
            \<and> (thr \<le> confidence (snd (rest ! j')) \<longrightarrow> Suc j' = length rest)" by blast
        with Suc show ?thesis by simp
      qed
    qed
    have c3: "length (tv # rest) < k \<longrightarrow> thr \<le> confidence (snd (last (tv # rest)))"
    proof
      assume "length (tv # rest) < k"
      then have "length rest < k - 1" by simp
      with IH have "thr \<le> confidence (snd (last rest))" by blast
      with ne show "thr \<le> confidence (snd (last (tv # rest)))" by simp
    qed
    have c0: "0 < k \<longrightarrow> tv # rest \<noteq> []" by simp
    have c3': "length (tv # rest) < k \<longrightarrow>
        tv # rest \<noteq> [] \<and> thr \<le> confidence (snd (last (tv # rest)))"
      using c3 by simp
    from c0 c1 c2 c3' show ?thesis by blast
  qed
qed

lemma debate_env_rounds: "debate_enabled_env pf \<longrightarrow> 0 < debate_rounds_env pf"
  by (simp add: debate_enabled_env_def)

lemma first_with_role_mem:
  "first_with_role r msgs = Some m \<Longrightarrow> m \<in> set msgs \<and> role m = r"
  by (auto simp: first_with_role_def find_Some_iff)

lemma build_report_ok:
  assumes "turns tr \<noteq> []" "valid_confidences (messages (last (turns tr)))"
  shows "\<exists>rp. build_report tr = Inr rp"
proof -
  let ?v = "first_with_role ''verifier'' (messages (last (turns tr)))"
  have "0 \<le> (case ?v of None \<Rightarrow> 0 | Some m \<Rightarrow> confidence m)
      \<and> (case ?v of None \<Rightarrow> 0 | Some m \<Rightarrow> confidence m) \<le> 1"
    using assms(2) first_with_role_mem[of "''verifier''" "messages (last (turns tr))"]
    by (auto simp: valid_confidences_def split: option.splits)
  with assms(1) show ?thesis
    by (simp add: build_report_def Let_def)
qed

lemma run_Inr:
  assumes "run pf rid now topic_text max_turns thr en fd k w = (Inr r, w')"
  shows "\<exists>tvs rp.
      run_turns pf (reader w') topic_text thr (debate_enabled_env pf) (debate_rounds_env pf)
        (nat max_turns) 0 [] (llm_state w) = (Inr tvs, llm_state w')
    \<and> r = rid
    \<and> reader w' = override_reader pf en fd k (reader w)
    \<and> build_report \<lparr>run_id = rid, topic = topic_text, created_at = now,
                     status = ''complete'', turns = map fst tvs\<rparr> = Inr rp
    \<and> traces w' = (traces w)(rid \<mapsto> \<lparr>run_id = rid, topic = topic_text, created_at = now,
                                        status = ''complete'', turns = map fst tvs\<rparr>)
    \<and> reports w' = (reports w)(rid \<mapsto> rp)"
  using assms
  by (auto simp: run_def Let_def persist_trace_def persist_report_def
      split: prod.splits sum.splits)

lemma run_unfold:
  assumes "run_turns pf (override_reader pf en fd k (reader w)) topic_text thr
             (debate_enabled_env pf) (debate_rounds_env pf) (nat max_turns) 0 [] (llm_state w)
           = (Inr tvs, s')"
  shows "run pf rid now topic_text max_turns thr en fd k w =
     (let tr = \<lparr>run_id = rid, topic = topic_text, created_at = now,
                 status = ''complete'', turns = map fst tvs\<rparr>;
          w2 = w\<lparr>reader := override_reader pf en fd k (reader w), llm_state := s',
                 traces := (traces w)(rid \<mapsto> tr)\<rparr>
      in case build_report tr of
           Inl e \<Rightarrow> (Inl e, w2)
         | Inr rp \<Rightarrow> (Inr rid, w2\<lparr>reports := (reports w)(rid \<mapsto> rp)\<rparr>))"
  using assms
  by (simp add: run_def Let_def persist_trace_def persist_report_def split: sum.splits)

section \<open>Stop condition of the run\<close>

lemma run_ok:
  assumes "provider_reliable pf" "1 \<le> max_turns"
  shows "\<exists>w'. run pf rid now topic_text max_turns thr en fd k w = (Inr rid, w')"
proof -
  let ?rd = "override_reader pf en fd k (reader w)"
  let ?deb = "debate_enabled_env pf" and ?n = "debate_rounds_env pf"
  obtain tvs s' where
    t: "run_turns pf ?rd topic_text thr ?deb ?n (nat max_turns) 0 [] (llm_state w) = (Inr tvs, s')"
    using run_turns_ok[OF assms(1)] by blast
  from run_turns_log[OF t debate_env_rounds] have
    log: "turns_log thr (nat max_turns) 0 tvs" and
    lay: "\<forall>tv\<in>set tvs. valid_confidences (messages (fst tv))"
    by auto
  from assms(2) have "0 < nat max_turns" by simp
  with turns_log_props[OF log] have ne: "tvs \<noteq> []" by blast
  let ?tr = "\<lparr>run_id = rid, topic = topic_text, created_at = now,
              status = ''complete'', turns = map fst tvs\<rparr>"
  have "last (map fst tvs) = fst (last tvs)" using ne by (simp add: last_map)
  moreover have "last tvs \<in> set tvs" using ne by simp
  ultimately have "valid_confidences (messages (last (turns ?tr)))"
    using lay by simp
  moreover have "turns ?tr \<noteq> []" using ne by simp
  ultimately obtain rp where "build_report ?tr = Inr rp"
    using build_report_ok by blast
  with run_unfold[OF t, of rid now] show ?thesis by simp
qed





section \<open>Layout of a completed trace\<close>

lemma turn_layout_ends:
  assumes "turn_layout deb n msgs v"
  shows "role (hd msgs) = ''reader'' \<and> role (last msgs) = ''followup''
       \<and> v \<in> set msgs \<and> role v = ''verifier''
       \<and> (\<not> deb \<longrightarrow> map role msgs = [''reader'', ''critic'', ''synthesizer'', ''verifier'', ''followup''])"
  using assms by (auto simp: turn_layout_def boundary_log_def)

text \<open>
  Claim C2. The trace of a completed run with \<open>max_turns \<ge> 1\<close> has status
  \<open>complete\<close> and at least one turn, and the messages of every turn are, in this order:
  the Extractor's message, the first debate log, the Challenger's message, the second
  debate log, the Integrator's message, the third debate log, the Validator's message,
  the fourth debate log and the Planner's message, where a debate log is empty when
  debate is disabled and otherwise a sequence of tagged rounds between the two
  neighbouring roles. So every turn begins with a \<open>reader\<close> message and ends with a
  \<open>followup\<close> message, and with debate disabled it is exactly the five pipeline
  messages in role order.
\<close>

theorem completed_trace_layout:
  assumes "1 \<le> max_turns"
      and "run pf rid now topic_text max_turns thr en fd k w = (Inr r, w')"
  shows "\<exists>tr. load_trace w' r = Some tr \<and> status tr = ''complete'' \<and> turns tr \<noteq> []
     \<and> (\<forall>t\<in>set (turns tr).
            (\<exists>v. turn_layout (debate_enabled_env pf) (debate_rounds_env pf) (messages t) v)
          \<and> role (hd (messages t)) = ''reader'' \<and> role (last (messages t)) = ''followup''
          \<and> (\<not> debate_enabled_env pf \<longrightarrow>
                map role (messages t)
                  = [''reader'', ''critic'', ''synthesizer'', ''verifier'', ''followup'']))"
proof -
  let ?deb = "debate_enabled_env pf" and ?n = "debate_rounds_env pf"
  from run_Inr[OF assms(2)] obtain tvs where
    t: "run_turns pf (reader w') topic_text thr ?deb ?n (nat max_turns) 0 [] (llm_state w)
          = (Inr tvs, llm_state w')" and
    r: "r = rid" and
    tr: "traces w' = (traces w)(rid \<mapsto> \<lparr>run_id = rid, topic = topic_text, created_at = now,
                                          status = ''complete'', turns = map fst tvs\<rparr>)"
    by blast
  define tr where "tr = \<lparr>run_id = rid, topic = topic_text, created_at = now,
                          status = ''complete'', turns = map fst tvs\<rparr>"
  from run_turns_log[OF t debate_env_rounds] have
    log: "turns_log thr (nat max_turns) 0 tvs" and
    lay: "\<forall>tv\<in>set tvs. turn_layout ?deb ?n (messages (fst tv)) (snd tv)"
    by auto
  from assms(1) have "0 < nat max_turns" by simp
  with turns_log_props[OF log] have ne: "tvs \<noteq> []" by blast
  have l1: "load_trace w' r = Some tr" by (simp add: load_trace_def tr r tr_def)
  have l2: "status tr = ''complete''" "turns tr \<noteq> []" using ne by (simp_all add: tr_def)
  have l3: "\<forall>t\<in>set (turns tr).
            (\<exists>v. turn_layout ?deb ?n (messages t) v)
          \<and> role (hd (messages t)) = ''reader'' \<and> role (last (messages t)) = ''followup''
          \<and> (\<not> ?deb \<longrightarrow>
                map role (messages t)
                  = [''reader'', ''critic'', ''synthesizer'', ''verifier'', ''followup''])"
  proof
    fix t assume "t \<in> set (turns tr)"
    then obtain tv where "tv \<in> set tvs" "t = fst tv" by (auto simp: tr_def)
    with lay have "turn_layout ?deb ?n (messages t) (snd tv)" by blast
    from this turn_layout_ends[OF this] show
      "(\<exists>v. turn_layout ?deb ?n (messages t) v)
          \<and> role (hd (messages t)) = ''reader'' \<and> role (last (messages t)) = ''followup''
          \<and> (\<not> ?deb \<longrightarrow>
                map role (messages t)
                  = [''reader'', ''critic'', ''synthesizer'', ''verifier'', ''followup''])"
      by blast
  qed
  from l1 l2 l3 show ?thesis by blast
qed

lemma debate_env:
  "debate_enabled_env (counting_platform env_debate sure fine) = True"
  "debate_rounds_env (counting_platform env_debate sure fine) = 1"
proof -
  have "py_lower ''true'' = ''true''" by code_simp
  then show "debate_enabled_env (counting_platform env_debate sure fine) = True"
    "debate_rounds_env (counting_platform env_debate sure fine) = 1"
    by (simp_all add: debate_enabled_env_def debate_rounds_env_def getenv_default_def
        counting_platform_def env_debate_def)
qed

theorem completed_trace_layout_witness:
  "(1::int) \<le> 2
   \<and> (\<exists>w' tr.
         run (counting_platform env_debate [] []) ''run-2'' 0 ''ab'' 2 0.8 None None 4
           (new_orchestrator (counting_platform env_debate [] []) 0) = (Inr ''run-2'', w')
       \<and> load_trace w' ''run-2'' = Some tr \<and> status tr = ''complete'' \<and> turns tr \<noteq> []
       \<and> (\<forall>t\<in>set (turns tr).
              (\<exists>v. turn_layout True 1 (messages t) v)
            \<and> role (hd (messages t)) = ''reader'' \<and> role (last (messages t)) = ''followup''))"
proof -
  let ?P = "counting_platform env_debate [] []"
  let ?W = "new_orchestrator ?P 0"
  have n: "(1::int) \<le> 2" by simp
  obtain w' where
    run: "run ?P ''run-2'' 0 ''ab'' 2 0.8 None None 4 ?W = (Inr ''run-2'', w')"
    using run_ok[OF counting_reliable[OF env_debate_set] n] by blast
  from completed_trace_layout[OF n run] show ?thesis
    using n run unfolding debate_env by blast
qed

section \<open>Report access and the trace store\<close>






section \<open>Report derivation\<close>

lemma strip_left_done:
  "dropWhile P (rev (dropWhile P (rev (dropWhile P s)))) = rev (dropWhile P (rev (dropWhile P s)))"
proof -
  define u where "u = dropWhile P s"
  define t where "t = rev (dropWhile P (rev u))"
  have "rev (takeWhile P (rev u) @ dropWhile P (rev u)) = rev (rev u)"
    by (simp only: takeWhile_dropWhile_id)
  then have u: "u = t @ rev (takeWhile P (rev u))"
    by (simp only: rev_append rev_rev_ident t_def)
  have "dropWhile P t = t"
  proof (cases "t = []")
    case True
    then show ?thesis by simp
  next
    case False
    with u have "hd t = hd u" "u \<noteq> []" by (metis hd_append2, auto)
    moreover from \<open>u \<noteq> []\<close> have "\<not> P (hd u)" unfolding u_def by (rule hd_dropWhile)
    ultimately have "\<not> P (hd t)" by simp
    then show ?thesis by (simp add: dropWhile_eq_self_iff)
  qed
  then show ?thesis unfolding t_def u_def .
qed

lemma py_strip_idem: "py_strip (py_strip s) = py_strip s"
  unfolding py_strip_def rev_rev_ident strip_left_done dropWhile_idem ..

lemma split_hypotheses_props:
  "length (split_hypotheses text) \<le> 5
   \<and> (\<forall>h\<in>set (split_hypotheses text). h \<noteq> [] \<and> py_strip h = h)"
proof -
  have "\<forall>h\<in>set (filter (\<lambda>h. h \<noteq> []) (map py_strip (py_split (CHR ''.'') text))).
          h \<noteq> [] \<and> py_strip h = h"
    by (auto simp: py_strip_idem)
  then have "\<forall>h\<in>set (split_hypotheses text). h \<noteq> [] \<and> py_strip h = h"
    unfolding split_hypotheses_def by (meson in_set_takeD)
  moreover have "length (split_hypotheses text) \<le> 5"
    by (simp add: split_hypotheses_def)
  ultimately show ?thesis by (rule conjI[rotated])
qed

lemma plain_turn_lookup:
  assumes "turn_layout False n msgs v"
  shows "\<exists>m1 m2 m3 m5. msgs = [m1, m2, m3, v, m5]
     \<and> role m3 = ''synthesizer'' \<and> role m5 = ''followup''
     \<and> first_with_role ''synthesizer'' msgs = Some m3
     \<and> first_with_role ''verifier'' msgs = Some v
     \<and> first_with_role ''followup'' msgs = Some m5"
  using assms by (auto simp: turn_layout_def boundary_log_def first_with_role_def)

text \<open>
  With debate disabled, the report of a finished run is built from the pipeline's
  Integrator, Validator and Planner messages of the last turn.
\<close>

lemma plain_report:
  assumes "turns tr \<noteq> []" "turn_layout False n (messages (last (turns tr))) v"
    "0 \<le> confidence v" "confidence v \<le> 1"
  shows "\<exists>m1 m2 m3 m5. messages (last (turns tr)) = [m1, m2, m3, v, m5]
     \<and> build_report tr = Inr
         \<lparr>report_run_id = run_id tr, report_topic = topic tr,
            summary = take 300 (content m3) @ nl @ nl @ ''Follow-up Research Directions:'' @ nl
                      @ take 200 (content m5) @ ''...'',
            hypotheses = split_hypotheses (content m3),
            report_confidence = confidence v,
            report_citations = citations m3 @ citations v @ citations m5\<rparr>"
proof -
  from plain_turn_lookup[OF assms(2)] obtain m1 m2 m3 m5 where
    m: "messages (last (turns tr)) = [m1, m2, m3, v, m5]"
    and f: "first_with_role ''synthesizer'' (messages (last (turns tr))) = Some m3"
       "first_with_role ''verifier'' (messages (last (turns tr))) = Some v"
       "first_with_role ''followup'' (messages (last (turns tr))) = Some m5"
    by blast
  have "build_report tr = Inr
         \<lparr>report_run_id = run_id tr, report_topic = topic tr,
            summary = take 300 (content m3) @ nl @ nl @ ''Follow-up Research Directions:'' @ nl
                      @ take 200 (content m5) @ ''...'',
            hypotheses = split_hypotheses (content m3),
            report_confidence = confidence v,
            report_citations = citations m3 @ citations v @ citations m5\<rparr>"
    unfolding build_report_def using assms(1,3,4) by (simp add: f Let_def)
  with m show ?thesis by blast
qed

lemma asks_headers:
  "debate_header ''critic'' ''synthesizer'' ''synthesizer'' ''asks'' (Suc 0)
     = ''[DEBATE critic->synthesizer | SYNTHESIZER asks | Round 1]'' @ nl"
  "debate_header ''synthesizer'' ''verifier'' ''verifier'' ''asks'' (Suc 0)
     = ''[DEBATE synthesizer->verifier | VERIFIER asks | Round 1]'' @ nl"
  "debate_header ''verifier'' ''followup'' ''followup'' ''asks'' (Suc 0)
     = ''[DEBATE verifier->followup | FOLLOWUP asks | Round 1]'' @ nl"
  by code_simp+

lemma asks_hypotheses:
  "split_hypotheses (''[DEBATE critic->synthesizer | SYNTHESIZER asks | Round 1]'' @ nl @ ''Open. [MORE]'')
     = [''[DEBATE critic->synthesizer | SYNTHESIZER asks | Round 1]'' @ nl @ ''Open'', ''[MORE]'']"
  "split_hypotheses ''Open. [MORE]'' = [''Open'', ''[MORE]'']"
  by code_simp+

lemma debate_turn_eval:
  "\<exists>msgs v.
     run_turns (counting_platform env_debate [12] []) rd ''ab'' 0.8 True 1 1 0 [] 0
       = (Inr [(\<lparr>index = 0, messages = msgs\<rparr>, v)], 17)
   \<and> v = \<lparr>role = ''verifier'', content = ''Open. [MORE]'', citations = [''ref''], confidence = 0.9\<rparr>
   \<and> length msgs = 17 \<and> msgs ! 12 = v
   \<and> msgs ! 8 = \<lparr>role = ''synthesizer'', content = ''Open. [MORE]'', citations = [''ref''],
                  confidence = 0.6\<rparr>
   \<and> msgs ! 16 = \<lparr>role = ''followup'', content = ''Open. [MORE]'', citations = [''ref''],
                   confidence = 0.6\<rparr>
   \<and> first_with_role ''synthesizer'' msgs
       = Some \<lparr>role = ''synthesizer'',
               content = ''[DEBATE critic->synthesizer | SYNTHESIZER asks | Round 1]'' @ nl
                         @ ''Open. [MORE]'',
               citations = [''ref''], confidence = 0.6\<rparr>
   \<and> first_with_role ''verifier'' msgs
       = Some \<lparr>role = ''verifier'',
               content = ''[DEBATE synthesizer->verifier | VERIFIER asks | Round 1]'' @ nl
                         @ ''Open. [MORE]'',
               citations = [''ref''], confidence = 0.6\<rparr>
   \<and> first_with_role ''followup'' msgs
       = Some \<lparr>role = ''followup'',
               content = ''[DEBATE verifier->followup | FOLLOWUP asks | Round 1]'' @ nl
                         @ ''Open. [MORE]'',
               citations = [''ref''], confidence = 0.6\<rparr>"
  by (simp add: run_turn_def optional_debate_def debate_def bindC_def returnC_def Let_def
      counting_send[OF env_debate_set] tagged_def first_with_role_def asks_headers
      eval_nat_numeral)


lemma debate_report_eval:
  "\<exists>msgs.
     run_turns (counting_platform env_debate [12] []) rd ''ab'' 0.8 True 1 1 0 [] 0
       = (Inr [(\<lparr>index = 0, messages = msgs\<rparr>,
                \<lparr>role = ''verifier'', content = ''Open. [MORE]'', citations = [''ref''],
                   confidence = 0.9\<rparr>)], 17)
   \<and> msgs ! 8 = \<lparr>role = ''synthesizer'', content = ''Open. [MORE]'', citations = [''ref''],
                  confidence = 0.6\<rparr>
   \<and> msgs ! 12 = \<lparr>role = ''verifier'', content = ''Open. [MORE]'', citations = [''ref''],
                   confidence = 0.9\<rparr>
   \<and> msgs ! 16 = \<lparr>role = ''followup'', content = ''Open. [MORE]'', citations = [''ref''],
                   confidence = 0.6\<rparr>
   \<and> build_report \<lparr>run_id = rid, topic = t, created_at = now, status = ''complete'',
                     turns = [\<lparr>index = 0, messages = msgs\<rparr>]\<rparr>
       = Inr \<lparr>report_run_id = rid, report_topic = t,
               summary = ''[DEBATE critic->synthesizer | SYNTHESIZER asks | Round 1]'' @ nl
                         @ ''Open. [MORE]'' @ nl @ nl @ ''Follow-up Research Directions:'' @ nl
                         @ ''[DEBATE verifier->followup | FOLLOWUP asks | Round 1]'' @ nl
                         @ ''Open. [MORE]...'',
               hypotheses = [''[DEBATE critic->synthesizer | SYNTHESIZER asks | Round 1]'' @ nl
                             @ ''Open'', ''[MORE]''],
               report_confidence = 0.6,
               report_citations = [''ref'', ''ref'', ''ref'']\<rparr>"
proof -
  from debate_turn_eval[of rd] obtain msgs v where
    e: "run_turns (counting_platform env_debate [12] []) rd ''ab'' 0.8 True 1 1 0 [] 0
       = (Inr [(\<lparr>index = 0, messages = msgs\<rparr>, v)], 17)"
    "v = \<lparr>role = ''verifier'', content = ''Open. [MORE]'', citations = [''ref''], confidence = 0.9\<rparr>"
    "msgs ! 12 = v"
    "msgs ! 8 = \<lparr>role = ''synthesizer'', content = ''Open. [MORE]'', citations = [''ref''],
                  confidence = 0.6\<rparr>"
    "msgs ! 16 = \<lparr>role = ''followup'', content = ''Open. [MORE]'', citations = [''ref''],
                   confidence = 0.6\<rparr>"
    and f: "first_with_role ''synthesizer'' msgs
       = Some \<lparr>role = ''synthesizer'',
               content = ''[DEBATE critic->synthesizer | SYNTHESIZER asks | Round 1]'' @ nl
                         @ ''Open. [MORE]'',
               citations = [''ref''], confidence = 0.6\<rparr>"
    "first_with_role ''verifier'' msgs
       = Some \<lparr>role = ''verifier'',
               content = ''[DEBATE synthesizer->verifier | VERIFIER asks | Round 1]'' @ nl
                         @ ''Open. [MORE]'',
               citations = [''ref''], confidence = 0.6\<rparr>"
    "first_with_role ''followup'' msgs
       = Some \<lparr>role = ''followup'',
               content = ''[DEBATE verifier->followup | FOLLOWUP asks | Round 1]'' @ nl
                         @ ''Open. [MORE]'',
               citations = [''ref''], confidence = 0.6\<rparr>"
    by blast
  have b: "build_report \<lparr>run_id = rid, topic = t, created_at = now, status = ''complete'',
                     turns = [\<lparr>index = 0, messages = msgs\<rparr>]\<rparr>
       = Inr \<lparr>report_run_id = rid, report_topic = t,
               summary = ''[DEBATE critic->synthesizer | SYNTHESIZER asks | Round 1]'' @ nl
                         @ ''Open. [MORE]'' @ nl @ nl @ ''Follow-up Research Directions:'' @ nl
                         @ ''[DEBATE verifier->followup | FOLLOWUP asks | Round 1]'' @ nl
                         @ ''Open. [MORE]...'',
               hypotheses = [''[DEBATE critic->synthesizer | SYNTHESIZER asks | Round 1]'' @ nl
                             @ ''Open'', ''[MORE]''],
               report_confidence = 0.6,
               report_citations = [''ref'', ''ref'', ''ref'']\<rparr>"
    unfolding build_report_def using asks_hypotheses(1) by (simp add: f Let_def)
  from e b show ?thesis by blast
qed


lemma debate_run_eval:
  "\<exists>msgs.
     fst (run (counting_platform env_debate [12] []) rid now ''ab'' 1 0.8 None None 4
            (new_orchestrator (counting_platform env_debate [12] []) 0)) = Inr rid
   \<and> load_trace (snd (run (counting_platform env_debate [12] []) rid now ''ab'' 1 0.8 None None 4
            (new_orchestrator (counting_platform env_debate [12] []) 0))) rid
       = Some \<lparr>run_id = rid, topic = ''ab'', created_at = now, status = ''complete'',
                turns = [\<lparr>index = 0, messages = msgs\<rparr>]\<rparr>
   \<and> msgs ! 8 = \<lparr>role = ''synthesizer'', content = ''Open. [MORE]'', citations = [''ref''],
                  confidence = 0.6\<rparr>
   \<and> msgs ! 12 = \<lparr>role = ''verifier'', content = ''Open. [MORE]'', citations = [''ref''],
                   confidence = 0.9\<rparr>
   \<and> msgs ! 16 = \<lparr>role = ''followup'', content = ''Open. [MORE]'', citations = [''ref''],
                   confidence = 0.6\<rparr>
   \<and> load_report (snd (run (counting_platform env_debate [12] []) rid now ''ab'' 1 0.8 None None 4
            (new_orchestrator (counting_platform env_debate [12] []) 0))) rid
       = Some \<lparr>report_run_id = rid, report_topic = ''ab'',
               summary = ''[DEBATE critic->synthesizer | SYNTHESIZER asks | Round 1]'' @ nl
                         @ ''Open. [MORE]'' @ nl @ nl @ ''Follow-up Research Directions:'' @ nl
                         @ ''[DEBATE verifier->followup | FOLLOWUP asks | Round 1]'' @ nl
                         @ ''Open. [MORE]...'',
               hypotheses = [''[DEBATE critic->synthesizer | SYNTHESIZER asks | Round 1]'' @ nl
                             @ ''Open'', ''[MORE]''],
               report_confidence = 0.6,
               report_citations = [''ref'', ''ref'', ''ref'']\<rparr>"
proof -
  let ?P = "counting_platform env_debate [12] []"
  let ?W = "new_orchestrator ?P 0"
  from debate_report_eval[of "reader ?W" rid "''ab''" now] obtain msgs where
    t: "run_turns ?P (reader ?W) ''ab'' 0.8 True 1 1 0 [] 0
       = (Inr [(\<lparr>index = 0, messages = msgs\<rparr>,
                \<lparr>role = ''verifier'', content = ''Open. [MORE]'', citations = [''ref''],
                   confidence = 0.9\<rparr>)], 17)" and
    m: "msgs ! 8 = \<lparr>role = ''synthesizer'', content = ''Open. [MORE]'', citations = [''ref''],
                  confidence = 0.6\<rparr>"
       "msgs ! 12 = \<lparr>role = ''verifier'', content = ''Open. [MORE]'', citations = [''ref''],
                   confidence = 0.9\<rparr>"
       "msgs ! 16 = \<lparr>role = ''followup'', content = ''Open. [MORE]'', citations = [''ref''],
                   confidence = 0.6\<rparr>" and
    b: "build_report \<lparr>run_id = rid, topic = ''ab'', created_at = now, status = ''complete'',
                     turns = [\<lparr>index = 0, messages = msgs\<rparr>]\<rparr>
       = Inr \<lparr>report_run_id = rid, report_topic = ''ab'',
               summary = ''[DEBATE critic->synthesizer | SYNTHESIZER asks | Round 1]'' @ nl
                         @ ''Open. [MORE]'' @ nl @ nl @ ''Follow-up Research Directions:'' @ nl
                         @ ''[DEBATE verifier->followup | FOLLOWUP asks | Round 1]'' @ nl
                         @ ''Open. [MORE]...'',
               hypotheses = [''[DEBATE critic->synthesizer | SYNTHESIZER asks | Round 1]'' @ nl
                             @ ''Open'', ''[MORE]''],
               report_confidence = 0.6,
               report_citations = [''ref'', ''ref'', ''ref'']\<rparr>"
    by blast
  have t': "run_turns ?P (override_reader ?P None None 4 (reader ?W)) ''ab'' 0.8
              (debate_enabled_env ?P) (debate_rounds_env ?P) (nat 1) 0 [] (llm_state ?W)
            = (Inr [(\<lparr>index = 0, messages = msgs\<rparr>,
                \<lparr>role = ''verifier'', content = ''Open. [MORE]'', citations = [''ref''],
                   confidence = 0.9\<rparr>)], 17)"
    using t by (simp add: debate_env override_reader_def new_orchestrator_def)
  have r: "run ?P rid now ''ab'' 1 0.8 None None 4 ?W =
     (Inr rid,
      ?W\<lparr>reader := override_reader ?P None None 4 (reader ?W), llm_state := 17,
          traces := (traces ?W)(rid \<mapsto> \<lparr>run_id = rid, topic = ''ab'', created_at = now,
                       status = ''complete'', turns = [\<lparr>index = 0, messages = msgs\<rparr>]\<rparr>),
          reports := (reports ?W)(rid \<mapsto> \<lparr>report_run_id = rid, report_topic = ''ab'',
               summary = ''[DEBATE critic->synthesizer | SYNTHESIZER asks | Round 1]'' @ nl
                         @ ''Open. [MORE]'' @ nl @ nl @ ''Follow-up Research Directions:'' @ nl
                         @ ''[DEBATE verifier->followup | FOLLOWUP asks | Round 1]'' @ nl
                         @ ''Open. [MORE]...'',
               hypotheses = [''[DEBATE critic->synthesizer | SYNTHESIZER asks | Round 1]'' @ nl
                             @ ''Open'', ''[MORE]''],
               report_confidence = 0.6,
               report_citations = [''ref'', ''ref'', ''ref'']\<rparr>)\<rparr>)"
    unfolding run_unfold[OF t', of rid now] using b by (simp add: Let_def)
  show ?thesis
    unfolding r using m by (intro exI[of _ msgs]) (simp add: load_trace_def load_report_def)
qed

text \<open>
  Claim C5, evaluated where the code departs from it. The platform has debate
  enabled with one round, as by default, and a client whose thirteenth call, the
  Validator's pipeline call, answers with confidence 0.9 and every other call with 0.6;
  all calls answer \<open>Open. [MORE]\<close>. The run stops after turn 0 on the Validator's 0.9.
  In the stored turn the Integrator's pipeline message is at position 8 and the
  Validator's at position 12, yet the stored report has confidence 0.6 and its
  hypotheses are split from the tagged question that the Integrator asked in the debate
  with the Challenger: the lookup by role finds the debate messages, which come first.
\<close>

theorem report_reads_debate_question:
  "fst (run (counting_platform env_debate [12] []) ''run-3'' 0 ''ab'' 1 0.8 None None 4
          (new_orchestrator (counting_platform env_debate [12] []) 0)) = Inr ''run-3''
   \<and> map_option (\<lambda>tr. (role (messages (last (turns tr)) ! 12),
                         confidence (messages (last (turns tr)) ! 12)))
        (load_trace (snd (run (counting_platform env_debate [12] []) ''run-3'' 0 ''ab'' 1 0.8
                            None None 4 (new_orchestrator (counting_platform env_debate [12] []) 0)))
           ''run-3'')
       = Some (''verifier'', 0.9)
   \<and> map_option report_confidence
        (load_report (snd (run (counting_platform env_debate [12] []) ''run-3'' 0 ''ab'' 1 0.8
                             None None 4 (new_orchestrator (counting_platform env_debate [12] []) 0)))
           ''run-3'')
       = Some 0.6
   \<and> map_option (\<lambda>tr. split_hypotheses (content (messages (last (turns tr)) ! 8)))
        (load_trace (snd (run (counting_platform env_debate [12] []) ''run-3'' 0 ''ab'' 1 0.8
                            None None 4 (new_orchestrator (counting_platform env_debate [12] []) 0)))
           ''run-3'')
       = Some [''Open'', ''[MORE]'']
   \<and> map_option hypotheses
        (load_report (snd (run (counting_platform env_debate [12] []) ''run-3'' 0 ''ab'' 1 0.8
                             None None 4 (new_orchestrator (counting_platform env_debate [12] []) 0)))
           ''run-3'')
       = Some [''[DEBATE critic->synthesizer | SYNTHESIZER asks | Round 1]'' @ nl @ ''Open'',
               ''[MORE]'']"
proof -
  from debate_run_eval[of "''run-3''" 0] obtain msgs where
    e: "fst (run (counting_platform env_debate [12] []) ''run-3'' 0 ''ab'' 1 0.8 None None 4
            (new_orchestrator (counting_platform env_debate [12] []) 0)) = Inr ''run-3''"
       "load_trace (snd (run (counting_platform env_debate [12] []) ''run-3'' 0 ''ab'' 1 0.8 None None 4
            (new_orchestrator (counting_platform env_debate [12] []) 0))) ''run-3''
       = Some \<lparr>run_id = ''run-3'', topic = ''ab'', created_at = 0, status = ''complete'',
                turns = [\<lparr>index = 0, messages = msgs\<rparr>]\<rparr>"
       "msgs ! 8 = \<lparr>role = ''synthesizer'', content = ''Open. [MORE]'', citations = [''ref''],
                  confidence = 0.6\<rparr>"
       "msgs ! 12 = \<lparr>role = ''verifier'', content = ''Open. [MORE]'', citations = [''ref''],
                   confidence = 0.9\<rparr>"
       "load_report (snd (run (counting_platform env_debate [12] []) ''run-3'' 0 ''ab'' 1 0.8 None None 4
            (new_orchestrator (counting_platform env_debate [12] []) 0))) ''run-3''
       = Some \<lparr>report_run_id = ''run-3'', report_topic = ''ab'',
               summary = ''[DEBATE critic->synthesizer | SYNTHESIZER asks | Round 1]'' @ nl
                         @ ''Open. [MORE]'' @ nl @ nl @ ''Follow-up Research Directions:'' @ nl
                         @ ''[DEBATE verifier->followup | FOLLOWUP asks | Round 1]'' @ nl
                         @ ''Open. [MORE]...'',
               hypotheses = [''[DEBATE critic->synthesizer | SYNTHESIZER asks | Round 1]'' @ nl
                             @ ''Open'', ''[MORE]''],
               report_confidence = 0.6,
               report_citations = [''ref'', ''ref'', ''ref'']\<rparr>"
    by blast
  show ?thesis
    unfolding e(1) e(2) e(5) using e(3) e(4) asks_hypotheses(2) by simp
qed

text \<open>
  Claim C10, evaluated at the same input. The Integrator's pipeline message (position
  8) and the Planner's (position 16) both read \<open>Open. [MORE]\<close>, so the summary of the
  claim would be that text, the header and that text again with the dots. The stored
  summary instead starts with the tagged question the Integrator asked in its debate
  and continues, after the header, with the tagged question the Planner asked.
\<close>

theorem summary_reads_debate_question:
  "fst (run (counting_platform env_debate [12] []) ''run-4'' 0 ''ab'' 1 0.8 None None 4
          (new_orchestrator (counting_platform env_debate [12] []) 0)) = Inr ''run-4''
   \<and> map_option (\<lambda>tr. (role (messages (last (turns tr)) ! 8),
                         content (messages (last (turns tr)) ! 8),
                         role (messages (last (turns tr)) ! 16),
                         content (messages (last (turns tr)) ! 16)))
        (load_trace (snd (run (counting_platform env_debate [12] []) ''run-4'' 0 ''ab'' 1 0.8
                            None None 4 (new_orchestrator (counting_platform env_debate [12] []) 0)))
           ''run-4'')
       = Some (''synthesizer'', ''Open. [MORE]'', ''followup'', ''Open. [MORE]'')
   \<and> map_option summary
        (load_report (snd (run (counting_platform env_debate [12] []) ''run-4'' 0 ''ab'' 1 0.8
                             None None 4 (new_orchestrator (counting_platform env_debate [12] []) 0)))
           ''run-4'')
       = Some (''[DEBATE critic->synthesizer | SYNTHESIZER asks | Round 1]'' @ nl
               @ ''Open. [MORE]'' @ nl @ nl @ ''Follow-up Research Directions:'' @ nl
               @ ''[DEBATE verifier->followup | FOLLOWUP asks | Round 1]'' @ nl
               @ ''Open. [MORE]...'')"
proof -
  from debate_run_eval[of "''run-4''" 0] obtain msgs where
    e: "fst (run (counting_platform env_debate [12] []) ''run-4'' 0 ''ab'' 1 0.8 None None 4
            (new_orchestrator (counting_platform env_debate [12] []) 0)) = Inr ''run-4''"
       "load_trace (snd (run (counting_platform env_debate [12] []) ''run-4'' 0 ''ab'' 1 0.8 None None 4
            (new_orchestrator (counting_platform env_debate [12] []) 0))) ''run-4''
       = Some \<lparr>run_id = ''run-4'', topic = ''ab'', created_at = 0, status = ''complete'',
                turns = [\<lparr>index = 0, messages = msgs\<rparr>]\<rparr>"
       "msgs ! 8 = \<lparr>role = ''synthesizer'', content = ''Open. [MORE]'', citations = [''ref''],
                  confidence = 0.6\<rparr>"
       "msgs ! 16 = \<lparr>role = ''followup'', content = ''Open. [MORE]'', citations = [''ref''],
                   confidence = 0.6\<rparr>"
       "load_report (snd (run (counting_platform env_debate [12] []) ''run-4'' 0 ''ab'' 1 0.8 None None 4
            (new_orchestrator (counting_platform env_debate [12] []) 0))) ''run-4''
       = Some \<lparr>report_run_id = ''run-4'', report_topic = ''ab'',
               summary = ''[DEBATE critic->synthesizer | SYNTHESIZER asks | Round 1]'' @ nl
                         @ ''Open. [MORE]'' @ nl @ nl @ ''Follow-up Research Directions:'' @ nl
                         @ ''[DEBATE verifier->followup | FOLLOWUP asks | Round 1]'' @ nl
                         @ ''Open. [MORE]...'',
               hypotheses = [''[DEBATE critic->synthesizer | SYNTHESIZER asks | Round 1]'' @ nl
                             @ ''Open'', ''[MORE]''],
               report_confidence = 0.6,
               report_citations = [''ref'', ''ref'', ''ref'']\<rparr>"
    by blast
  show ?thesis
    unfolding e(1) e(2) e(5) using e(3) e(4) by simp
qed

section \<open>Runs under the offline placeholder\<close>

lemma mock_send:
  assumes "\<not> provider_env_set pf" "\<not> require_provider pf"
  shows "send pf ag p s = (Inr (mock_message pf ag p), s)"
  using assms role_prompt_nonempty[of ag]
    mock_confidence_range[of "sha256_utf8 pf (role_prompt ag @ nl @ agent_prompt pf ag p)"]
  by (simp add: send_def base_send_def bindC_def call_grok_api_def mock_response_def
      new_message_def returnC_def mock_message_def Let_def)

lemma mock_run_turn:
  assumes "\<not> provider_env_set pf" "\<not> require_provider pf"
  shows "run_turn pf rd topic_text False n s = (Inr (plain_turn pf rd topic_text), s)"
  by (simp add: run_turn_def optional_debate_def bindC_def returnC_def
      mock_send[OF assms] plain_turn_def Let_def)

lemma mock_run_turns:
  assumes "\<not> provider_env_set pf" "\<not> require_provider pf"
  shows "\<exists>tvs. \<forall>s. run_turns pf rd topic_text thr False n k i acc s = (Inr tvs, s)"
proof (induction k arbitrary: i acc)
  case 0
  show ?case by (simp add: returnC_def)
next
  case (Suc k)
  obtain msgs v where pt: "plain_turn pf rd topic_text = (msgs, v)"
    by (cases "plain_turn pf rd topic_text")
  show ?case
  proof (cases "thr \<le> confidence v")
    case True
    then show ?thesis
      by (simp add: bindC_def returnC_def mock_run_turn[OF assms] pt)
  next
    case False
    from Suc.IH[of "Suc i" "acc @ [(\<lparr>index = i, messages = msgs\<rparr>, v)]"]
    obtain tvs where
      "\<forall>s. run_turns pf rd topic_text thr False n k (Suc i)
              (acc @ [(\<lparr>index = i, messages = msgs\<rparr>, v)]) s = (Inr tvs, s)"
      by blast
    with False show ?thesis
      by (simp add: bindC_def mock_run_turn[OF assms] pt)
  qed
qed

lemma run_reader:
  "reader (snd (run pf rid now topic_text max_turns thr en fd k w))
     = override_reader pf en fd k (reader w)"
  by (simp add: run_def Let_def persist_trace_def persist_report_def
      split: prod.splits sum.splits)

lemma build_report_content:
  assumes "turns tr1 = turns tr2" "build_report tr1 = Inr rp1"
  shows "\<exists>rp2. build_report tr2 = Inr rp2 \<and> summary rp2 = summary rp1
     \<and> hypotheses rp2 = hypotheses rp1 \<and> report_confidence rp2 = report_confidence rp1
     \<and> report_citations rp2 = report_citations rp1"
  using assms by (auto simp: build_report_def Let_def split: if_splits)

end
